theory Spec2Isabelle
  imports Main "HOL-Library.Extended_Nat"
begin

section \<open>Strings and the library functions the crawler calls\<close>

text \<open>
  A Python \<open>str\<close> is modelled as a \<open>string\<close>: a list of characters, each a code point
  below 256. \<open>len\<close> is \<open>length\<close>. The character classes below are those of Python 3
  on that range: \<open>str.split()\<close> and \<open>str.strip()\<close> treat the code points 9 to 13, 28 to
  32, 133 and 160 as whitespace; the class \<open>[a-zA-Z0-9]\<close> of a \<open>str\<close> pattern is the
  ASCII letters and digits; \<open>\w\<close> is every alphanumeric code point and the underscore.
\<close>

definition sq :: char where
  "sq = CHR 0x27"

definition nl :: char where
  "nl = CHR 0x0A"

definition backslash :: char where
  "backslash = CHR 0x5C"

definition is_space :: "char \<Rightarrow> bool" where
  "is_space c =
     (let n = (of_char c :: nat)
      in (9 \<le> n \<and> n \<le> 13) \<or> (28 \<le> n \<and> n \<le> 32) \<or> n = 133 \<or> n = 160)"

definition is_alnum_ascii :: "char \<Rightarrow> bool" where
  "is_alnum_ascii c =
     (let n = (of_char c :: nat)
      in (97 \<le> n \<and> n \<le> 122) \<or> (65 \<le> n \<and> n \<le> 90) \<or> (48 \<le> n \<and> n \<le> 57))"

definition is_word_char :: "char \<Rightarrow> bool" where
  "is_word_char c =
     (let n = (of_char c :: nat)
      in is_alnum_ascii c \<or> n = 95 \<or> n = 170 \<or> n = 178 \<or> n = 179 \<or> n = 181 \<or>
         n = 185 \<or> n = 186 \<or> (188 \<le> n \<and> n \<le> 190) \<or> (192 \<le> n \<and> n \<le> 214) \<or>
         (216 \<le> n \<and> n \<le> 246) \<or> 248 \<le> n)"

text \<open>\<open>s.split()\<close>: the maximal runs of characters that are not whitespace.\<close>

fun split_ws :: "string \<Rightarrow> string \<Rightarrow> string list" where
  "split_ws acc [] = (if acc = [] then [] else [acc])"
| "split_ws acc (c # cs) =
     (if is_space c then (if acc = [] then split_ws [] cs else acc # split_ws [] cs)
      else split_ws (acc @ [c]) cs)"

definition py_split :: "string \<Rightarrow> string list" where
  "py_split s = split_ws [] s"

text \<open>\<open>s.strip()\<close>, \<open>s.replace(a, b)\<close> for single characters, \<open>s.endswith(suffix)\<close>.\<close>

definition py_strip :: "string \<Rightarrow> string" where
  "py_strip s = rev (dropWhile is_space (rev (dropWhile is_space s)))"

definition py_replace :: "char \<Rightarrow> string \<Rightarrow> string \<Rightarrow> string" where
  "py_replace a b s = concat (map (\<lambda>c. if c = a then b else [c]) s)"

definition endswith :: "string \<Rightarrow> string \<Rightarrow> bool" where
  "endswith s suffix =
     (length suffix \<le> length s \<and> drop (length s - length suffix) s = suffix)"

text \<open>\<open>str(n)\<close> for a status code.\<close>

definition digit_char :: "nat \<Rightarrow> char" where
  "digit_char d = char_of (48 + d)"

fun str_nat :: "nat \<Rightarrow> string" where
  "str_nat n = (if n < 10 then [digit_char n] else str_nat (n div 10) @ [digit_char (n mod 10)])"

text \<open>
  \<open>repr(s)\<close> of a string: double quotes when the string has a single quote and no double
  quote, single quotes otherwise; the quote and the backslash are escaped, so are tab,
  newline and carriage return, and every other code point that is not printable is
  written \<open>\xhh\<close>.
\<close>

definition hex_char :: "nat \<Rightarrow> char" where
  "hex_char d = (if d < 10 then char_of (48 + d) else char_of (87 + d))"

definition repr_char :: "char \<Rightarrow> char \<Rightarrow> string" where
  "repr_char q c =
     (let n = (of_char c :: nat)
      in if c = q \<or> c = backslash then [backslash, c]
         else if n = 9 then [backslash, CHR ''t'']
         else if n = 10 then [backslash, CHR ''n'']
         else if n = 13 then [backslash, CHR ''r'']
         else if n < 32 \<or> (127 \<le> n \<and> n \<le> 160) \<or> n = 173
           then [backslash, CHR ''x'', hex_char (n div 16), hex_char (n mod 16)]
         else [c])"

definition py_repr :: "string \<Rightarrow> string" where
  "py_repr s =
     (let q = (if sq \<in> set s \<and> CHR 0x22 \<notin> set s then CHR 0x22 else sq)
      in [q] @ concat (map (repr_char q) s) @ [q])"

fun join_comma :: "string list \<Rightarrow> string" where
  "join_comma [] = []"
| "join_comma [x] = x"
| "join_comma (x # y # ys) = x @ '', '' @ join_comma (y # ys)"

definition repr_list :: "string list \<Rightarrow> string" where
  "repr_list xs = ''['' @ join_comma (map py_repr xs) @ '']''"

section \<open>The address grammars\<close>

text \<open>
  \<open>re.fullmatch(r"(bc1|[13])[a-zA-Z0-9]{25,61}", text)\<close>. The alternatives are tried in
  order; after either of them the rest of the text has to be 25 to 61 letters and digits,
  up to the end of the text.
\<close>

definition alnum_run :: "string \<Rightarrow> bool" where
  "alnum_run r = (25 \<le> length r \<and> length r \<le> 61 \<and> list_all is_alnum_ascii r)"

definition btc_fullmatch :: "string \<Rightarrow> bool" where
  "btc_fullmatch s =
     ((take 3 s = ''bc1'' \<and> alnum_run (drop 3 s)) \<or>
      (case s of [] \<Rightarrow> False | c # r \<Rightarrow> (c = CHR ''1'' \<or> c = CHR ''3'') \<and> alnum_run r))"

text \<open>\<open>DarkCrawler.btc_address_search\<close>: the matched text (the whole token), or None.\<close>

definition btc_address_search :: "string \<Rightarrow> string option" where
  "btc_address_search text =
     (if text \<noteq> [] then (if btc_fullmatch text then Some text else None) else None)"

text \<open>\<open>fetch.is_valid_btc_address\<close>: the truth value of the match object.\<close>

definition is_valid_btc_address :: "string \<Rightarrow> bool" where
  "is_valid_btc_address addr = btc_fullmatch addr"

text \<open>
  \<open>re.search(r"https?://\w+\.onion", text)\<close>. At one position the pattern matches the
  scheme, then the longest run of word characters (the dot is not one, so no shorter run
  can be followed by the suffix), then \<open>.onion\<close>; the search returns the match at the
  leftmost position that has one.
\<close>

definition onion_match_here :: "string \<Rightarrow> string option" where
  "onion_match_here s =
     (let scheme = (if take 8 s = ''https://'' then Some ''https://''
                    else if take 7 s = ''http://'' then Some ''http://'' else None)
      in case scheme of
           None \<Rightarrow> None
         | Some sch \<Rightarrow>
             (let r = drop (length sch) s;
                  w = takeWhile is_word_char r;
                  t = dropWhile is_word_char r
              in if w \<noteq> [] \<and> take 6 t = ''.onion'' then Some (sch @ w @ ''.onion'') else None))"

fun onion_search :: "string \<Rightarrow> string option" where
  "onion_search [] = None"
| "onion_search (c # cs) =
     (case onion_match_here (c # cs) of Some m \<Rightarrow> Some m | None \<Rightarrow> onion_search cs)"

text \<open>\<open>DarkCrawler.onion_address_search\<close>; the argument is \<open>a.get("href")\<close>, which may be None.\<close>

definition onion_address_search :: "string option \<Rightarrow> string option" where
  "onion_address_search text =
     (case text of None \<Rightarrow> None | Some t \<Rightarrow> if t \<noteq> [] then onion_search t else None)"

text \<open>The payment-address grammar in the words of the specification.\<close>

definition spec_payment_grammar :: "string \<Rightarrow> bool" where
  "spec_payment_grammar t =
     (list_ex (\<lambda>p. take (length p) t = p \<and>
                   25 \<le> length (drop (length p) t) \<and> length (drop (length p) t) \<le> 61 \<and>
                   list_all is_alnum_ascii (drop (length p) t))
        [''bc1'', ''1'', ''3''] \<and>
      26 \<le> length t \<and> length t \<le> 62)"

section \<open>The crawler's state\<close>

text \<open>
  Exceptions that leave a method are values. \<open>SavestateError\<close> stands for whatever
  \<open>open\<close> or \<open>eval\<close> raises on a savestate that cannot be read.
\<close>

datatype py_error = AttributeError | AssertionError | SavestateError

text \<open>
  What the crawler reads off a parsed page (a \<open>BeautifulSoup\<close> object): \<open>a.get("href")\<close>
  of every anchor in document order, the pieces of \<open>get_text(separator).split(separator)\<close>,
  and \<open>bsoup.title.string\<close>, which is None when the page has no title element or the
  element holds no single string (either way the attribute access on it raises
  AttributeError).
\<close>

record page =
  hrefs :: "string option list"
  url_text :: "string list"
  title_string :: "string option"

text \<open>
  The outcome of \<open>requests.get\<close>: an exception, by the name of its class, or a response
  with a status code and the parsed body. A network answers the request number \<open>n\<close> of a
  run for an address.
\<close>

datatype fetch_result = Raised string | Response nat page

type_synonym network = "nat \<Rightarrow> string \<Rightarrow> fetch_result"

text \<open>
  The savestate holds a deque and a set. The multithreaded crawler builds the deque from a
  set, in the iteration order of that set, which Python does not fix.
\<close>

datatype saved_queue = Deque "string list" | DequeOfSet "string set"

text \<open>
  The attributes of a crawler object that a run changes, the files it writes, and two
  traces: the addresses handed to \<open>requests.get\<close> and the work items handed to the executor.
  A line of the log file is kept as the sequence number, the address and the outcome (the
  thread name, queue size and elapsed time of the line are left out).
\<close>

record crawler =
  queue :: "string list"
  searched :: "string set"
  seen :: "string set"
  data_file :: string
  log_file :: "(nat \<times> string \<times> string) list"
  savestate_file :: "(saved_queue \<times> string set) option"
  requests :: "string list"
  submitted :: "string list"

record config =
  seeds :: "string list"
  search_limit :: enat
  resume_path :: "string option"
  ahmia_keyword_path :: "string option"

text \<open>
  The files a run reads: what the two lines of the savestate evaluate to (None when the
  file cannot be opened or evaluated), and \<open>readlines()\<close> of the keyword file.
\<close>

record environment =
  savestate_eval :: "(string list \<times> string set) option"
  keyword_lines :: "string list"

definition truthy :: "string option \<Rightarrow> bool" where
  "truthy p = (case p of None \<Rightarrow> False | Some s \<Rightarrow> s \<noteq> [])"

text \<open>
  Every name bound on a crawler object: by the three \<open>__init__\<close> methods, by
  \<open>_setup_structs\<close> and \<open>_load_prev_crawl\<close>, and the methods of the three classes.
\<close>

definition crawler_attributes :: "string list" where
  "crawler_attributes =
     [''seeds'', ''search_limit'', ''output_dir'', ''resume_path'', ''data_path'',
      ''log_path'', ''savestate_path'', ''ahmia_keyword_path'', ''proxies'',
      ''request_timeout_after'', ''nr_of_threads'', ''queue'', ''searched'', ''seen'',
      ''write_data_lock'', ''write_log_lock'', ''queue_lock'', ''log_lock'', ''executor'',
      ''_setup_structs'', ''_on_shutdown'', ''_load_prev_crawl'', ''_write_data'',
      ''_write_log'', ''_is_new_address'', ''_log_iter'', ''_is_valid_com_address'',
      ''_scrape_links'', ''scrape_url'', ''crawl'', ''_load_ahmia_seeds'',
      ''_is_new_onion_address'', ''_scrape_btc_addresses'', ''onion_address_search'',
      ''btc_address_search'']"

definition getattr :: "string \<Rightarrow> py_error + string" where
  "getattr name = (if name \<in> set crawler_attributes then Inr name else Inl AttributeError)"

section \<open>Writing the files\<close>

definition write_data :: "string \<Rightarrow> crawler \<Rightarrow> crawler" where
  "write_data text st = st\<lparr>data_file := data_file st @ text\<rparr>"

definition write_log :: "nat \<times> string \<times> string \<Rightarrow> crawler \<Rightarrow> crawler" where
  "write_log entry st = st\<lparr>log_file := log_file st @ [entry]\<rparr>"

text \<open>
  \<open>_log_iter\<close>, of BaseCrawler and of MultiThreadedDarkCrawler (the same but for the lock
  and the fields of the line that are left out).
\<close>

definition log_iter :: "string \<Rightarrow> string \<Rightarrow> crawler \<Rightarrow> crawler" where
  "log_iter url result st =
     (let st1 = st\<lparr>searched := insert url (searched st)\<rparr>
      in write_log (card (searched st1), url, result) st1)"

text \<open>The three shapes of text that \<open>scrape_url\<close> and \<open>_scrape_btc_addresses\<close> write.\<close>

definition record_line :: "string \<Rightarrow> string \<Rightarrow> string" where
  "record_line url v = ''  '' @ [sq] @ url @ [sq] @ '': '' @ v @ '','' @ [nl]"

definition status_value :: "string \<Rightarrow> string" where
  "status_value s = [sq] @ s @ [sq]"

text \<open>\<open>str(out_value)\<close> of the dictionary with the keys \<open>btc_addrs\<close> and \<open>title\<close>.\<close>

definition dict_value :: "string list \<Rightarrow> string \<Rightarrow> string" where
  "dict_value addrs title =
     ''{'' @ [sq] @ ''btc_addrs'' @ [sq] @ '': '' @ repr_list addrs @ '', '' @
     [sq] @ ''title'' @ [sq] @ '': '' @ py_repr title @ ''}''"

section \<open>Link and payment-address extraction\<close>

text \<open>\<open>BaseCrawler._is_new_address\<close> and \<open>DarkCrawler._is_new_onion_address\<close>.\<close>

definition is_new_address :: "string \<Rightarrow> crawler \<Rightarrow> bool" where
  "is_new_address addr st = (addr \<notin> set (queue st) \<and> addr \<notin> searched st)"

text \<open>\<open>MultiThreadedDarkCrawler._is_new_onion_address\<close>.\<close>

definition mt_is_new_onion_address :: "string \<Rightarrow> crawler \<Rightarrow> bool" where
  "mt_is_new_onion_address addr st = (addr \<notin> seen st)"

text \<open>\<open>".com" in addr\<close>, and \<open>BaseCrawler._is_valid_com_address\<close>.\<close>

definition contains :: "string \<Rightarrow> string \<Rightarrow> bool" where
  "contains sub s = list_ex (\<lambda>i. take (length sub) (drop i s) = sub) [0..<Suc (length s)]"

definition is_valid_com_address :: "string option \<Rightarrow> bool" where
  "is_valid_com_address addr =
     (case addr of None \<Rightarrow> False | Some a \<Rightarrow> a \<noteq> [] \<and> contains ''.com'' a)"

text \<open>\<open>BaseCrawler._scrape_links\<close>: one iteration, and the loop over the anchors.\<close>

definition base_scrape_link :: "string option \<Rightarrow> crawler \<Rightarrow> crawler" where
  "base_scrape_link href st =
     (case href of
        None \<Rightarrow> st
      | Some a \<Rightarrow>
          if is_valid_com_address (Some a) \<and> is_new_address a st
          then st\<lparr>queue := queue st @ [a]\<rparr> else st)"

definition base_scrape_links :: "page \<Rightarrow> crawler \<Rightarrow> crawler" where
  "base_scrape_links p st = fold base_scrape_link (hrefs p) st"

text \<open>\<open>DarkCrawler._scrape_links\<close>.\<close>

definition dark_scrape_link :: "string option \<Rightarrow> crawler \<Rightarrow> crawler" where
  "dark_scrape_link href st =
     (case onion_address_search href of
        None \<Rightarrow> st
      | Some a \<Rightarrow> if a \<noteq> [] \<and> is_new_address a st then st\<lparr>queue := queue st @ [a]\<rparr> else st)"

definition dark_scrape_links :: "page \<Rightarrow> crawler \<Rightarrow> crawler" where
  "dark_scrape_links p st = fold dark_scrape_link (hrefs p) st"

text \<open>
  \<open>MultiThreadedDarkCrawler._scrape_links\<close>. \<open>enqueue_check\<close> is the block that runs
  holding \<open>queue_lock\<close>: the test of the address against \<open>seen\<close> and the two insertions.
  Nothing else runs on \<open>seen\<close> and \<open>queue\<close> while the lock is held, so the block is one
  step of the state.
\<close>

definition enqueue_check :: "string option \<Rightarrow> crawler \<Rightarrow> crawler" where
  "enqueue_check onion_addr st =
     (case onion_addr of
        None \<Rightarrow> st
      | Some a \<Rightarrow>
          if a \<noteq> [] \<and> mt_is_new_onion_address a st
          then st\<lparr>seen := insert a (seen st), queue := queue st @ [a]\<rparr> else st)"

definition mt_scrape_link :: "string option \<Rightarrow> crawler \<Rightarrow> crawler" where
  "mt_scrape_link href st = enqueue_check (onion_address_search href) st"

definition mt_scrape_links :: "page \<Rightarrow> crawler \<Rightarrow> crawler" where
  "mt_scrape_links p st = fold mt_scrape_link (hrefs p) st"

text \<open>
  \<open>DarkCrawler._scrape_btc_addresses\<close>. The tokens are the whitespace-separated words of
  every piece of text, in order. The Python set \<open>btc_addresses\<close> is kept as a list without
  repetitions (\<open>List.insert\<close> adds an element that is not there yet); \<open>list(btc_addresses)\<close>
  enumerates the set in an order Python does not fix, and the model takes the list as it is.
\<close>

definition page_tokens :: "page \<Rightarrow> string list" where
  "page_tokens p = concat (map py_split (url_text p))"

definition btc_step :: "string option list \<Rightarrow> string \<Rightarrow> string list \<Rightarrow> string list" where
  "btc_step links text btc_addresses =
     (case btc_address_search text of
        None \<Rightarrow> btc_addresses
      | Some btc_addr \<Rightarrow>
          if Some (btc_addr @ ''.onion'') \<in> set links then btc_addresses
          else List.insert btc_addr btc_addresses)"

definition find_btc_addresses :: "page \<Rightarrow> string list" where
  "find_btc_addresses p = fold (btc_step (hrefs p)) (page_tokens p) []"

definition scrape_btc_addresses :: "page \<Rightarrow> string \<Rightarrow> crawler \<Rightarrow> crawler \<times> py_error option" where
  "scrape_btc_addresses p url st =
     (let btc_addresses = find_btc_addresses p
      in case title_string p of
           None \<Rightarrow> (st, Some AttributeError)
         | Some t \<Rightarrow>
             (write_data
                (record_line url (dict_value btc_addresses (py_strip (filter (\<lambda>c. c \<noteq> nl) t))))
                st, None))"

section \<open>Scraping one address\<close>

definition is_v2_address :: "string \<Rightarrow> bool" where
  "is_v2_address url = (endswith url ''.onion'' \<and> length url \<le> 30)"

text \<open>
  \<open>scrape_url\<close> of DarkCrawler and of MultiThreadedDarkCrawler: the same text, which
  reaches the \<open>_scrape_links\<close> of its own class. The result is the state the call leaves
  and the exception that leaves the call, if any: the branch for status 200 is outside the
  \<open>try\<close> block.
\<close>

definition scrape_url_with ::
  "(page \<Rightarrow> crawler \<Rightarrow> crawler) \<Rightarrow> network \<Rightarrow> string \<Rightarrow> crawler \<Rightarrow> crawler \<times> py_error option" where
  "scrape_url_with scrape_links net url st =
     (if is_v2_address url
      then (write_data (record_line url (status_value ''V2 address (deprecated)''))
              (log_iter url ''V2 address (deprecated)'' st), None)
      else
        (let st1 = st\<lparr>requests := requests st @ [url]\<rparr>
         in case net (length (requests st)) url of
              Raised e \<Rightarrow>
                (write_data (record_line url (status_value (''Exception: '' @ e)))
                   (log_iter url e st1), None)
            | Response code p \<Rightarrow>
                (let st2 = log_iter url (''HTTP '' @ str_nat code) st1
                 in if code = 200 then scrape_btc_addresses p url (scrape_links p st2)
                    else (write_data
                            (record_line url (status_value (''HTTP error: '' @ str_nat code)))
                            st2, None))))"

definition dark_scrape_url :: "network \<Rightarrow> string \<Rightarrow> crawler \<Rightarrow> crawler \<times> py_error option" where
  "dark_scrape_url = scrape_url_with dark_scrape_links"

definition mt_scrape_url :: "network \<Rightarrow> string \<Rightarrow> crawler \<Rightarrow> crawler \<times> py_error option" where
  "mt_scrape_url = scrape_url_with mt_scrape_links"

text \<open>\<open>BaseCrawler.scrape_url\<close>.\<close>

definition base_scrape_url :: "network \<Rightarrow> string \<Rightarrow> crawler \<Rightarrow> crawler" where
  "base_scrape_url net url st =
     (let st1 = st\<lparr>requests := requests st @ [url]\<rparr>
      in case net (length (requests st)) url of
           Raised e \<Rightarrow> log_iter url e st1
         | Response code p \<Rightarrow>
             (let st2 = write_data (url @ [nl]) (log_iter url (''HTTP '' @ str_nat code) st1)
              in if code = 200 then base_scrape_links p st2 else st2))"

section \<open>Start and shutdown\<close>

text \<open>\<open>BaseCrawler._load_prev_crawl\<close>: the two \<open>eval(f.readline())\<close>.\<close>

definition base_load_prev_crawl :: "environment \<Rightarrow> crawler \<Rightarrow> py_error + crawler" where
  "base_load_prev_crawl env st =
     (case savestate_eval env of
        None \<Rightarrow> Inl SavestateError
      | Some (q, s) \<Rightarrow> Inr (st\<lparr>queue := q, searched := s\<rparr>))"

text \<open>\<open>f.readlines()\<close>: the lines of a text, each with its newline.\<close>

fun lines_of :: "string \<Rightarrow> string \<Rightarrow> string list" where
  "lines_of acc [] = (if acc = [] then [] else [acc])"
| "lines_of acc (c # cs) =
     (if c = nl then (acc @ [c]) # lines_of [] cs else lines_of (acc @ [c]) cs)"

definition readlines :: "string \<Rightarrow> string list" where
  "readlines s = lines_of [] s"

text \<open>
  \<open>DarkCrawler._load_prev_crawl\<close>. After the savestate is loaded the method opens
  \<open>self.output_path\<close>, and would write back every line of that file but the last. The
  attribute is looked up on the object first; the data file is the one the object knows
  as \<open>data_path\<close>.
\<close>

definition dark_load_prev_crawl :: "environment \<Rightarrow> crawler \<Rightarrow> py_error + crawler" where
  "dark_load_prev_crawl env st =
     (case base_load_prev_crawl env st of
        Inl e \<Rightarrow> Inl e
      | Inr st1 \<Rightarrow>
          (case getattr ''output_path'' of
             Inl e \<Rightarrow> Inl e
           | Inr attr \<Rightarrow>
               Inr (if attr = ''data_path''
                    then st1\<lparr>data_file := concat (butlast (readlines (data_file st1)))\<rparr>
                    else st1)))"

text \<open>\<open>MultiThreadedDarkCrawler._load_prev_crawl\<close>.\<close>

definition mt_load_prev_crawl :: "environment \<Rightarrow> crawler \<Rightarrow> py_error + crawler" where
  "mt_load_prev_crawl env st =
     (case dark_load_prev_crawl env st of
        Inl e \<Rightarrow> Inl e
      | Inr st1 \<Rightarrow> Inr (st1\<lparr>seen := set (queue st1) \<union> searched st1\<rparr>))"

text \<open>\<open>DarkCrawler._load_ahmia_seeds\<close>.\<close>

definition ahmia_link :: string where
  "ahmia_link = ''https://ahmia.fi/search/?q=''"

definition kw_link :: "string \<Rightarrow> string" where
  "kw_link kw = ahmia_link @ py_replace CHR '' '' ''+'' (py_strip kw)"

definition load_ahmia_seed :: "string \<Rightarrow> crawler \<Rightarrow> crawler" where
  "load_ahmia_seed kw st =
     (if kw_link kw \<notin> searched st then st\<lparr>queue := queue st @ [kw_link kw]\<rparr> else st)"

definition load_ahmia_seeds :: "environment \<Rightarrow> crawler \<Rightarrow> crawler" where
  "load_ahmia_seeds env st = fold load_ahmia_seed (keyword_lines env) st"

text \<open>
  \<open>_setup_structs\<close>. The method of DarkCrawler calls \<open>self._load_prev_crawl()\<close>, which is
  the method of the object's own class, so it is a parameter here.
\<close>

definition base_setup_structs :: "config \<Rightarrow> environment \<Rightarrow> crawler \<Rightarrow> py_error + crawler" where
  "base_setup_structs cfg env st =
     (if truthy (resume_path cfg) then base_load_prev_crawl env st
      else Inr (st\<lparr>queue := seeds cfg, searched := {}\<rparr>))"

definition setup_structs_with ::
  "(environment \<Rightarrow> crawler \<Rightarrow> py_error + crawler) \<Rightarrow>
   config \<Rightarrow> environment \<Rightarrow> crawler \<Rightarrow> py_error + crawler" where
  "setup_structs_with load_prev_crawl cfg env st =
     (case (if truthy (resume_path cfg) then load_prev_crawl env st
            else Inr (write_data (''{'' @ [nl]) (st\<lparr>queue := seeds cfg, searched := {}\<rparr>))) of
        Inl e \<Rightarrow> Inl e
      | Inr st1 \<Rightarrow>
          Inr (if truthy (ahmia_keyword_path cfg) then load_ahmia_seeds env st1 else st1))"

definition dark_setup_structs :: "config \<Rightarrow> environment \<Rightarrow> crawler \<Rightarrow> py_error + crawler" where
  "dark_setup_structs = setup_structs_with dark_load_prev_crawl"

definition mt_setup_structs :: "config \<Rightarrow> environment \<Rightarrow> crawler \<Rightarrow> py_error + crawler" where
  "mt_setup_structs cfg env st = setup_structs_with mt_load_prev_crawl cfg env (st\<lparr>seen := {}\<rparr>)"

text \<open>\<open>_on_shutdown\<close> of BaseCrawler and of DarkCrawler.\<close>

definition base_on_shutdown :: "crawler \<Rightarrow> crawler" where
  "base_on_shutdown st = st\<lparr>savestate_file := Some (Deque (queue st), searched st)\<rparr>"

definition dark_on_shutdown :: "crawler \<Rightarrow> crawler" where
  "dark_on_shutdown st =
     (let st1 = write_data (''}'' @ [nl]) st
      in st1\<lparr>savestate_file := Some (Deque (queue st1), searched st1)\<rparr>)"

text \<open>
  The method of MultiThreadedDarkCrawler first calls \<open>executor.shutdown\<close>, which returns
  when the work items that are running have finished: \<open>finish\<close> is what they do to the
  state until then.
\<close>

definition mt_on_shutdown :: "(crawler \<Rightarrow> crawler) \<Rightarrow> crawler \<Rightarrow> crawler" where
  "mt_on_shutdown finish st =
     (let st1 = write_data (''}'' @ [nl]) (finish st)
      in st1\<lparr>savestate_file := Some (DequeOfSet (seen st1 - searched st1), searched st1)\<rparr>)"

section \<open>The run loops\<close>

text \<open>\<open>len(self.searched) >= self.search_limit\<close>; the limit is a number or \<open>math.inf\<close>.\<close>

definition limit_reached :: "config \<Rightarrow> crawler \<Rightarrow> bool" where
  "limit_reached cfg st = (search_limit cfg \<le> enat (card (searched st)))"

text \<open>
  The loop of \<open>BaseCrawler.crawl\<close> with no interrupt. It need not end (the pages can keep
  giving new links), so the loop is a partial function: None is a loop that runs forever.
\<close>

partial_function (option) base_crawl_loop :: "config \<Rightarrow> network \<Rightarrow> crawler \<Rightarrow> crawler option" where
  "base_crawl_loop cfg net st =
     (case queue st of
        [] \<Rightarrow> Some st
      | url # rest \<Rightarrow>
          if limit_reached cfg st then Some st
          else base_crawl_loop cfg net (base_scrape_url net url (st\<lparr>queue := rest\<rparr>)))"

definition base_crawl ::
  "config \<Rightarrow> environment \<Rightarrow> network \<Rightarrow> crawler \<Rightarrow> (py_error + crawler) option" where
  "base_crawl cfg env net st =
     (case base_setup_structs cfg env st of
        Inl e \<Rightarrow> Some (Inl e)
      | Inr st1 \<Rightarrow> map_option (\<lambda>st2. Inr (base_on_shutdown st2)) (base_crawl_loop cfg net st1))"

text \<open>
  The block of \<open>MultiThreadedDarkCrawler.crawl\<close> that holds \<open>queue_lock\<close>: every address
  of the queue is submitted to the executor and the queue is replaced by an empty one.
\<close>

definition drain_batch :: "crawler \<Rightarrow> crawler" where
  "drain_batch st = st\<lparr>submitted := submitted st @ queue st, queue := []\<rparr>"

text \<open>
  The loop of \<open>MultiThreadedDarkCrawler.crawl\<close> with no interrupt. The worker threads
  change the state between two rounds of the loop: \<open>workers k\<close> is what they do after
  round \<open>k\<close> (or, in the last round, while the shutdown waits for them), and it is
  arbitrary.
\<close>

partial_function (option) mt_crawl_loop ::
  "config \<Rightarrow> (nat \<Rightarrow> crawler \<Rightarrow> crawler) \<Rightarrow> nat \<Rightarrow> crawler \<Rightarrow> crawler option" where
  "mt_crawl_loop cfg workers k st =
     (if limit_reached cfg st then Some (mt_on_shutdown (workers k) st)
      else mt_crawl_loop cfg workers (Suc k) (workers k (drain_batch st)))"

definition mt_crawl ::
  "config \<Rightarrow> environment \<Rightarrow> (nat \<Rightarrow> crawler \<Rightarrow> crawler) \<Rightarrow> crawler \<Rightarrow> (py_error + crawler) option" where
  "mt_crawl cfg env workers st =
     (case mt_setup_structs cfg env st of
        Inl e \<Rightarrow> Some (Inl e)
      | Inr st1 \<Rightarrow> map_option Inr (mt_crawl_loop cfg workers 0 st1))"



text \<open>
  Worker threads that run \<open>scrape_url\<close> on a list of addresses, one call after the other.
  An exception that leaves a call stays in the future of the work item, which nobody reads.
\<close>

definition run_workers :: "network \<Rightarrow> string list \<Rightarrow> crawler \<Rightarrow> crawler" where
  "run_workers net urls st = fold (\<lambda>url s. fst (mt_scrape_url net url s)) urls st"

text \<open>
  What happens to the frontier of a multithreaded run, in the order in which the lock is
  taken: an iteration of \<open>_scrape_links\<close> in some worker, for one anchor, or a round of
  the run loop. Any interleaving of any number of workers is a list of such events.
\<close>

datatype frontier_event = Discover "string option" | DrainBatch

fun frontier_step :: "frontier_event \<Rightarrow> crawler \<Rightarrow> crawler" where
  "frontier_step (Discover href) st = mt_scrape_link href st"
| "frontier_step DrainBatch st = drain_batch st"

definition run_frontier :: "frontier_event list \<Rightarrow> crawler \<Rightarrow> crawler" where
  "run_frontier evs st = fold frontier_step evs st"

text \<open>The addresses passed to the enqueue check by a list of events.\<close>

fun passed_in :: "frontier_event list \<Rightarrow> string list" where
  "passed_in [] = []"
| "passed_in (Discover href # evs) =
     (case onion_address_search href of
        None \<Rightarrow> passed_in evs
      | Some a \<Rightarrow> a # passed_in evs)"
| "passed_in (DrainBatch # evs) = passed_in evs"

section \<open>The ledger lookup of fetch.py\<close>

text \<open>
  The outcome of the lookup: an exception, or a status code with the text that
  \<open>json.dump(res.json(), f)\<close> writes (None when \<open>res.json()\<close> raises). The world of the
  function is the list of addresses requested and the output file; the result is the
  world the call leaves and the exception that leaves the call, if any.
\<close>

datatype api_result = ApiRaised | ApiResponse nat "string option"

record fetch_world =
  lookups :: "string list"
  output_file :: string

definition blockstream_fetch ::
  "(string \<Rightarrow> api_result) \<Rightarrow> string \<Rightarrow> fetch_world \<Rightarrow> fetch_world \<times> py_error option" where
  "blockstream_fetch api addr w =
     (if \<not> is_valid_btc_address addr then (w, Some AssertionError)
      else
        (let url = ''https://blockstream.info/api/address/'' @ addr;
             w1 = w\<lparr>lookups := lookups w @ [url]\<rparr>
         in case api url of
              ApiRaised \<Rightarrow> (w1, None)
            | ApiResponse code body \<Rightarrow>
                if code = 200
                then (case body of
                        None \<Rightarrow> (w1, None)
                      | Some j \<Rightarrow> (w1\<lparr>output_file := output_file w1 @ j @ [nl]\<rparr>, None))
                else (w1, None)))"

section \<open>Example inputs\<close>

text \<open>A crawler object before setup, with empty files.\<close>

definition empty_crawler :: crawler where
  "empty_crawler = \<lparr>queue = [], searched = {}, seen = {}, data_file = [], log_file = [],
          savestate_file = None, requests = [], submitted = []\<rparr>"

text \<open>
  A page whose text names a payment address once, and which has an anchor whose target is
  that token followed by \<open>.onion\<close>; and a page with no title element.
\<close>

definition suppressed_page :: page where
  "suppressed_page =
     \<lparr>hrefs = [Some ''1A1zP1eP5QGefi2DMPTfTL5SLmv7DivfNa.onion'', None],
      url_text = [''Shop'', ''pay to  1A1zP1eP5QGefi2DMPTfTL5SLmv7DivfNa now''],
      title_string = Some ''Shop''\<rparr>"

definition untitled_page :: page where
  "untitled_page = \<lparr>hrefs = [], url_text = [''hello''], title_string = None\<rparr>"

text \<open>
  A resumed run with a readable savestate, and a fresh run whose seed list names one address
  twice and whose keyword file has a keyword line and a blank line.
\<close>

definition resume_config :: config where
  "resume_config = \<lparr>seeds = [], search_limit = \<infinity>, resume_path = Some ''output/crawler/savestate.txt'',
     ahmia_keyword_path = None\<rparr>"

definition resume_environment :: environment where
  "resume_environment =
     \<lparr>savestate_eval = Some ([''http://seedxxxxxxxxxxxxxxxseedxxxxxxxxxxxxxxxseedxxxxxxxxxxxxxxx1.onion''], {}),
      keyword_lines = []\<rparr>"

definition fresh_config :: config where
  "fresh_config =
     \<lparr>seeds = [''http://seedxxxxxxxxxxxxxxx.onion'', ''http://seedxxxxxxxxxxxxxxx.onion''],
      search_limit = \<infinity>, resume_path = None, ahmia_keyword_path = Some ''ahmia-keywords.txt''\<rparr>"

definition fresh_environment :: environment where
  "fresh_environment =
     \<lparr>savestate_eval = None, keyword_lines = [''hidden wiki'' @ [nl], [nl]]\<rparr>"

text \<open>
  Concurrent callers of the enqueue check: each caller brings the targets of the anchors of
  its page, in order, and a schedule names the caller whose turn it is (a turn of a caller
  that is done, or that does not exist, is skipped; when the schedule is over the callers
  run one after the other).
\<close>

fun interleave :: "nat list \<Rightarrow> 'a list list \<Rightarrow> 'a list" where
  "interleave [] xss = concat xss"
| "interleave (i # sched) xss =
     (if i < length xss
      then (case xss ! i of
              [] \<Rightarrow> interleave sched xss
            | x # xs \<Rightarrow> x # interleave sched (xss[i := xs]))
      else interleave sched xss)"

definition two_callers :: "string option list list" where
  "two_callers =
     [[Some ''http://aaaaaaaaaaaaaaaaaaaaaaaaaaaaaaaaaaaaaaaaaaaaaaaaaaaaaaaa.onion/x'',
       Some ''https://bbbbbbbbbbbbbbbbbbbbbbbbbbbbbbbbbbbbbbbbbbbbbbbbbbbbbbbb.onion'', None],
      [Some ''http://aaaaaaaaaaaaaaaaaaaaaaaaaaaaaaaaaaaaaaaaaaaaaaaaaaaaaaaa.onion/y'',
       Some ''mailto:shop@example.com'']]"

text \<open>
  The records of the data file in the words of the specification, with no reference to the
  functions that write them. A record is a page record (the payment addresses, the quote
  character and the escaped text of the title) or a status. Its entry is two spaces, the
  address in single quotes, a colon and a space, the value, a comma and a newline; the
  value is the status in single quotes, or the literal of a dictionary with the keys
  \<open>btc_addrs\<close> and \<open>title\<close>.
\<close>

datatype crawl_record = PageRecord "string list" char string | StatusRecord string

fun spec_items :: "string list \<Rightarrow> string" where
  "spec_items [] = []"
| "spec_items [a] = [CHR 0x27] @ a @ [CHR 0x27]"
| "spec_items (a # b # r) = [CHR 0x27] @ a @ [CHR 0x27] @ '', '' @ spec_items (b # r)"

fun spec_value :: "crawl_record \<Rightarrow> string" where
  "spec_value (StatusRecord s) = [CHR 0x27] @ s @ [CHR 0x27]"
| "spec_value (PageRecord addrs q t) =
     ''{'' @ [CHR 0x27] @ ''btc_addrs'' @ [CHR 0x27] @ '': ['' @ spec_items addrs @ ''], '' @
     [CHR 0x27] @ ''title'' @ [CHR 0x27] @ '': '' @ [q] @ t @ [q] @ ''}''"

definition spec_entry :: "string \<Rightarrow> crawl_record \<Rightarrow> string" where
  "spec_entry addr r =
     ''  '' @ [CHR 0x27] @ addr @ [CHR 0x27] @ '': '' @ spec_value r @ '','' @ [CHR 0x0A]"

text \<open>
  A well-formed record: a status is one of the three of the specification and has no line
  break; a page record lists distinct payment addresses, and its title is quoted by a
  single or a double quote and has no line break.
\<close>

fun spec_record_ok :: "crawl_record \<Rightarrow> bool" where
  "spec_record_ok (StatusRecord s) =
     (CHR 0x0A \<notin> set s \<and>
      (s = ''V2 address (deprecated)'' \<or> take 11 s = ''Exception: '' \<or>
       (take 12 s = ''HTTP error: '' \<and> drop 12 s \<noteq> [] \<and>
        list_all (\<lambda>c. 48 \<le> (of_char c :: nat) \<and> (of_char c :: nat) \<le> 57) (drop 12 s))))"
| "spec_record_ok (PageRecord addrs q t) =
     ((q = CHR 0x27 \<or> q = CHR 0x22) \<and> CHR 0x0A \<notin> set t \<and> distinct addrs \<and>
      list_all is_valid_btc_address addrs)"

text \<open>The text of a list of records, and a list of well-formed records for given addresses.\<close>

definition written :: "(string \<times> crawl_record) list \<Rightarrow> string" where
  "written recs = concat (map (\<lambda>(a, r). spec_entry a r) recs)"

definition records_ok :: "string set \<Rightarrow> (string \<times> crawl_record) list \<Rightarrow> bool" where
  "records_ok A recs = list_all (\<lambda>(a, r). a \<in> A \<and> spec_record_ok r) recs"


text \<open>A run that stops after one address, and workers that complete it in the first round.\<close>

definition limited_config :: config where
  "limited_config =
     \<lparr>seeds = [''http://abcdefghijklmnop.onion''], search_limit = 1, resume_path = None,
      ahmia_keyword_path = None\<rparr>"

definition first_round :: "nat \<Rightarrow> string list" where
  "first_round k = (if k = 0 then [''http://abcdefghijklmnop.onion''] else [])"





definition no_files :: environment where
  "no_files = \<lparr>savestate_eval = None, keyword_lines = []\<rparr>"



section \<open>The payment-address grammar\<close>

text \<open>
  The matcher accepts exactly the tokens made of one of the three prefixes and 25 to 61
  ASCII letters and digits after it.
\<close>

lemma btc_fullmatch_iff:
  "btc_fullmatch t \<longleftrightarrow>
     (\<exists>p r. t = p @ r \<and> (p = ''bc1'' \<or> p = ''1'' \<or> p = ''3'') \<and>
            25 \<le> length r \<and> length r \<le> 61 \<and> list_all is_alnum_ascii r)"
proof
  assume m: "btc_fullmatch t"
  then consider (bc) "take 3 t = ''bc1''" "alnum_run (drop 3 t)"
    | (one) c r where "t = c # r" "c = CHR ''1'' \<or> c = CHR ''3''" "alnum_run r"
    by (auto simp: btc_fullmatch_def split: list.splits)
  then show "\<exists>p r. t = p @ r \<and> (p = ''bc1'' \<or> p = ''1'' \<or> p = ''3'') \<and>
            25 \<le> length r \<and> length r \<le> 61 \<and> list_all is_alnum_ascii r"
  proof cases
    case bc
    have "t = take 3 t @ drop 3 t" by simp
    with bc show ?thesis unfolding alnum_run_def by metis
  next
    case one
    then show ?thesis unfolding alnum_run_def
      by (metis append_Cons append_Nil)
  qed
next
  assume "\<exists>p r. t = p @ r \<and> (p = ''bc1'' \<or> p = ''1'' \<or> p = ''3'') \<and>
            25 \<le> length r \<and> length r \<le> 61 \<and> list_all is_alnum_ascii r"
  then obtain p r where t: "t = p @ r" and p: "p = ''bc1'' \<or> p = ''1'' \<or> p = ''3''"
    and r: "alnum_run r" by (auto simp: alnum_run_def)
  from p show "btc_fullmatch t"
    using t r by (auto simp: btc_fullmatch_def)
qed

lemma btc_fullmatch_length:
  assumes "btc_fullmatch t"
  shows "26 \<le> length t \<and> length t \<le> 64 \<and> (take 3 t = ''bc1'' \<longrightarrow> 28 \<le> length t)
         \<and> (take 3 t \<noteq> ''bc1'' \<longrightarrow> length t \<le> 62)"
  using assms by (auto simp: btc_fullmatch_def alnum_run_def split: list.splits)

text \<open>
  Against C3 as it is stated. The token \<open>bc1\<close> followed by 61 letters has 64 characters: the matcher accepts it, and
  the grammar as the specification words it (total length 26 to 62) does not.
\<close>

theorem payment_grammar_counterexample:
  "is_valid_btc_address ''bc1qqqqqqqqqqqqqqqqqqqqqqqqqqqqqqqqqqqqqqqqqqqqqqqqqqqqqqqqqqqqq'' \<and>
   length ''bc1qqqqqqqqqqqqqqqqqqqqqqqqqqqqqqqqqqqqqqqqqqqqqqqqqqqqqqqqqqqqq'' = 64 \<and>
   \<not> spec_payment_grammar ''bc1qqqqqqqqqqqqqqqqqqqqqqqqqqqqqqqqqqqqqqqqqqqqqqqqqqqqqqqqqqqqq''"
  by (simp add: is_valid_btc_address_def btc_fullmatch_def alnum_run_def is_alnum_ascii_def
      spec_payment_grammar_def)

text \<open>
  C3, amended. A token is accepted by \<open>is_valid_btc_address\<close>, and returned whole by
  \<open>btc_address_search\<close>, if and only if it is \<open>bc1\<close>, \<open>1\<close> or \<open>3\<close> followed by 25 to 61
  ASCII letters and digits up to the end of the token. An accepted token has 26 to 64
  characters: at least 28 when it starts with \<open>bc1\<close>, at most 62 otherwise. The two
  addresses of the specification are accepted, \<open>0xAbC123\<close> is not, and no token of 20
  characters is.
\<close>

theorem payment_grammar:
  "(is_valid_btc_address t \<longleftrightarrow>
      (\<exists>p r. t = p @ r \<and> (p = ''bc1'' \<or> p = ''1'' \<or> p = ''3'') \<and>
             25 \<le> length r \<and> length r \<le> 61 \<and> list_all is_alnum_ascii r)) \<and>
   btc_address_search t = (if is_valid_btc_address t then Some t else None) \<and>
   (is_valid_btc_address t \<longrightarrow>
      26 \<le> length t \<and> length t \<le> 64 \<and>
      (if take 3 t = ''bc1'' then 28 \<le> length t else length t \<le> 62)) \<and>
   is_valid_btc_address ''1A1zP1eP5QGefi2DMPTfTL5SLmv7DivfNa'' \<and>
   is_valid_btc_address ''bc1qar0srrr7xfkvy5l643lydnw9re59gtzzwf5mdq'' \<and>
   \<not> is_valid_btc_address ''0xAbC123'' \<and>
   (length u = 20 \<longrightarrow> \<not> is_valid_btc_address u)"
proof -
  have a: "is_valid_btc_address t \<longleftrightarrow>
      (\<exists>p r. t = p @ r \<and> (p = ''bc1'' \<or> p = ''1'' \<or> p = ''3'') \<and>
             25 \<le> length r \<and> length r \<le> 61 \<and> list_all is_alnum_ascii r)"
    unfolding is_valid_btc_address_def by (rule btc_fullmatch_iff)
  have b: "btc_address_search t = (if is_valid_btc_address t then Some t else None)"
    by (auto simp: btc_address_search_def is_valid_btc_address_def btc_fullmatch_def alnum_run_def)
  have c: "is_valid_btc_address t \<longrightarrow>
      26 \<le> length t \<and> length t \<le> 64 \<and>
      (if take 3 t = ''bc1'' then 28 \<le> length t else length t \<le> 62)"
    using btc_fullmatch_length [of t] by (simp add: is_valid_btc_address_def)
  have d: "is_valid_btc_address ''1A1zP1eP5QGefi2DMPTfTL5SLmv7DivfNa''"
    by (simp add: is_valid_btc_address_def btc_fullmatch_def alnum_run_def is_alnum_ascii_def)
  have e: "is_valid_btc_address ''bc1qar0srrr7xfkvy5l643lydnw9re59gtzzwf5mdq''"
    by (simp add: is_valid_btc_address_def btc_fullmatch_def alnum_run_def is_alnum_ascii_def)
  have f: "\<not> is_valid_btc_address ''0xAbC123''"
    by (simp add: is_valid_btc_address_def btc_fullmatch_def alnum_run_def)
  have g: "length u = 20 \<longrightarrow> \<not> is_valid_btc_address u"
    using btc_fullmatch_length [of u] by (auto simp: is_valid_btc_address_def)
  from a b c d e f g show ?thesis by blast
qed

text \<open>The theorem at an address of 34 characters and at a token of 20 characters.\<close>

theorem payment_grammar_witness:
  "is_valid_btc_address ''3J98t1WpEZ73CNmQviecrnyiWrnqRhWNLy'' \<and>
   btc_address_search ''3J98t1WpEZ73CNmQviecrnyiWrnqRhWNLy'' = Some ''3J98t1WpEZ73CNmQviecrnyiWrnqRhWNLy'' \<and>
   length ''3J98t1WpEZ73CNmQviecrnyiWrnqRhWNLy'' \<le> 62 \<and>
   length ''1BvBMSEYstWetqTFn5Au'' = 20 \<and>
   \<not> is_valid_btc_address ''1BvBMSEYstWetqTFn5Au''"
proof -
  have v: "is_valid_btc_address ''3J98t1WpEZ73CNmQviecrnyiWrnqRhWNLy''"
    by (simp add: is_valid_btc_address_def btc_fullmatch_def alnum_run_def is_alnum_ascii_def)
  have l: "length ''1BvBMSEYstWetqTFn5Au'' = 20" by simp
  show ?thesis
    using v l payment_grammar [of "''3J98t1WpEZ73CNmQviecrnyiWrnqRhWNLy''" "''1BvBMSEYstWetqTFn5Au''"]
    by simp
qed

section \<open>What the steps of a scrape leave unchanged\<close>

lemma log_iter_frame [simp]:
  "data_file (log_iter url r st) = data_file st"
  "requests (log_iter url r st) = requests st"
  "queue (log_iter url r st) = queue st"
  "seen (log_iter url r st) = seen st"
  "searched (log_iter url r st) = insert url (searched st)"
  by (simp_all add: log_iter_def write_log_def Let_def)

lemma write_data_frame [simp]:
  "data_file (write_data t st) = data_file st @ t"
  "requests (write_data t st) = requests st"
  "searched (write_data t st) = searched st"
  "seen (write_data t st) = seen st"
  "queue (write_data t st) = queue st"
  by (simp_all add: write_data_def)

lemma mt_scrape_link_frame [simp]:
  "data_file (mt_scrape_link h st) = data_file st"
  "requests (mt_scrape_link h st) = requests st"
  "searched (mt_scrape_link h st) = searched st"
  by (simp_all add: mt_scrape_link_def enqueue_check_def split: option.splits)

lemma dark_scrape_link_frame [simp]:
  "data_file (dark_scrape_link h st) = data_file st"
  "requests (dark_scrape_link h st) = requests st"
  "searched (dark_scrape_link h st) = searched st"
  by (simp_all add: dark_scrape_link_def split: option.splits)

lemma mt_scrape_links_frame [simp]:
  "data_file (mt_scrape_links p st) = data_file st"
  "requests (mt_scrape_links p st) = requests st"
  "searched (mt_scrape_links p st) = searched st"
proof -
  have "data_file (fold mt_scrape_link hs st) = data_file st \<and>
        requests (fold mt_scrape_link hs st) = requests st \<and>
        searched (fold mt_scrape_link hs st) = searched st" for hs
    by (induction hs arbitrary: st) simp_all
  then show "data_file (mt_scrape_links p st) = data_file st"
    "requests (mt_scrape_links p st) = requests st"
    "searched (mt_scrape_links p st) = searched st"
    by (simp_all add: mt_scrape_links_def)
qed

lemma dark_scrape_links_frame [simp]:
  "data_file (dark_scrape_links p st) = data_file st"
  "requests (dark_scrape_links p st) = requests st"
  "searched (dark_scrape_links p st) = searched st"
proof -
  have "data_file (fold dark_scrape_link hs st) = data_file st \<and>
        requests (fold dark_scrape_link hs st) = requests st \<and>
        searched (fold dark_scrape_link hs st) = searched st" for hs
    by (induction hs arbitrary: st) simp_all
  then show "data_file (dark_scrape_links p st) = data_file st"
    "requests (dark_scrape_links p st) = requests st"
    "searched (dark_scrape_links p st) = searched st"
    by (simp_all add: dark_scrape_links_def)
qed

lemma scrape_btc_addresses_requests [simp]:
  "requests (fst (scrape_btc_addresses p url st)) = requests st"
  by (simp add: scrape_btc_addresses_def Let_def split: option.splits)

lemma scrape_url_with_v2:
  assumes "is_v2_address url"
  shows "scrape_url_with sl net url st =
     (st\<lparr>searched := insert url (searched st),
         log_file := log_file st @ [(card (insert url (searched st)), url, ''V2 address (deprecated)'')],
         data_file := data_file st @ record_line url (status_value ''V2 address (deprecated)'')\<rparr>,
      None)"
  using assms by (simp add: scrape_url_with_def log_iter_def write_log_def write_data_def Let_def)

lemma scrape_url_with_requests:
  assumes "\<not> is_v2_address url" and "\<And>p s. requests (sl p s) = requests s"
  shows "requests (fst (scrape_url_with sl net url st)) = requests st @ [url]"
  using assms by (simp add: scrape_url_with_def Let_def split: fetch_result.splits)

section \<open>The shortcut for deprecated addresses\<close>

text \<open>
  C5. For an address that ends with \<open>.onion\<close> and has at most 30 characters,
  \<open>scrape_url\<close> (of DarkCrawler and of MultiThreadedDarkCrawler) marks the address as
  searched, logs \<open>V2 address (deprecated)\<close>, appends to the data file the text made of two
  spaces, the address in single quotes, a colon, a space, \<open>V2 address (deprecated)\<close> in
  single quotes, a comma and a newline, and returns; the list of network requests is
  unchanged. For an address with more than 30 characters the call issues one request, for
  that address.
\<close>

theorem v2_shortcut:
  "(endswith url ''.onion'' \<and> length url \<le> 30 \<longrightarrow>
      dark_scrape_url net url st =
        (st\<lparr>searched := insert url (searched st),
            log_file := log_file st @
              [(card (insert url (searched st)), url, ''V2 address (deprecated)'')],
            data_file := data_file st @
              ''  '' @ [CHR 0x27] @ url @ [CHR 0x27] @ '': '' @
              [CHR 0x27] @ ''V2 address (deprecated)'' @ [CHR 0x27] @ '','' @ [CHR 0x0A]\<rparr>, None) \<and>
      mt_scrape_url net url st = dark_scrape_url net url st \<and>
      requests (fst (dark_scrape_url net url st)) = requests st \<and>
      requests (fst (mt_scrape_url net url st)) = requests st) \<and>
   (endswith long ''.onion'' \<and> 30 < length long \<longrightarrow>
      requests (fst (dark_scrape_url net long st)) = requests st @ [long] \<and>
      requests (fst (mt_scrape_url net long st)) = requests st @ [long])"
proof -
  have short: "dark_scrape_url net url st =
        (st\<lparr>searched := insert url (searched st),
            log_file := log_file st @
              [(card (insert url (searched st)), url, ''V2 address (deprecated)'')],
            data_file := data_file st @
              ''  '' @ [CHR 0x27] @ url @ [CHR 0x27] @ '': '' @
              [CHR 0x27] @ ''V2 address (deprecated)'' @ [CHR 0x27] @ '','' @ [CHR 0x0A]\<rparr>, None) \<and>
      mt_scrape_url net url st = dark_scrape_url net url st \<and>
      requests (fst (dark_scrape_url net url st)) = requests st \<and>
      requests (fst (mt_scrape_url net url st)) = requests st"
    if "endswith url ''.onion''" "length url \<le> 30"
  proof -
    from that have v: "is_v2_address url" by (simp add: is_v2_address_def)
    show ?thesis
      by (simp add: dark_scrape_url_def mt_scrape_url_def scrape_url_with_v2 [OF v]
          record_line_def status_value_def sq_def nl_def)
  qed
  have lng: "requests (fst (dark_scrape_url net long st)) = requests st @ [long] \<and>
      requests (fst (mt_scrape_url net long st)) = requests st @ [long]"
    if "30 < length long"
  proof -
    from that have v: "\<not> is_v2_address long" by (simp add: is_v2_address_def)
    show ?thesis
      by (simp add: dark_scrape_url_def mt_scrape_url_def scrape_url_with_requests [OF v])
  qed
  from short lng show ?thesis by blast
qed

text \<open>
  The theorem at the address of the specification (29 characters), and at an address of
  50 characters, on a network that times out.
\<close>

theorem v2_shortcut_witness:
  "endswith ''http://abcdefghijklmnop.onion'' ''.onion'' \<and>
   length ''http://abcdefghijklmnop.onion'' \<le> 30 \<and>
   requests (fst (mt_scrape_url (\<lambda>n u. Raised ''Timeout'') ''http://abcdefghijklmnop.onion''
     empty_crawler)) = [] \<and>
   data_file (fst (dark_scrape_url (\<lambda>n u. Raised ''Timeout'') ''http://abcdefghijklmnop.onion''
     empty_crawler)) =
     ''  '' @ [CHR 0x27] @ ''http://abcdefghijklmnop.onion'' @ [CHR 0x27] @ '': '' @
     [CHR 0x27] @ ''V2 address (deprecated)'' @ [CHR 0x27] @ '','' @ [CHR 0x0A] \<and>
   data_file (fst (mt_scrape_url (\<lambda>n u. Raised ''Timeout'') ''http://abcdefghijklmnop.onion''
     empty_crawler)) =
     ''  '' @ [CHR 0x27] @ ''http://abcdefghijklmnop.onion'' @ [CHR 0x27] @ '': '' @
     [CHR 0x27] @ ''V2 address (deprecated)'' @ [CHR 0x27] @ '','' @ [CHR 0x0A] \<and>
   log_file (fst (mt_scrape_url (\<lambda>n u. Raised ''Timeout'') ''http://abcdefghijklmnop.onion''
     empty_crawler)) = [(1, ''http://abcdefghijklmnop.onion'', ''V2 address (deprecated)'')] \<and>
   endswith ''http://abcdefghijklmnopqrstuvwxyz0123456789a.onion'' ''.onion'' \<and>
   length ''http://abcdefghijklmnopqrstuvwxyz0123456789a.onion'' = 50 \<and>
   requests (fst (mt_scrape_url (\<lambda>n u. Raised ''Timeout'')
     ''http://abcdefghijklmnopqrstuvwxyz0123456789a.onion'' empty_crawler)) =
     [''http://abcdefghijklmnopqrstuvwxyz0123456789a.onion'']"
  using v2_shortcut [of "''http://abcdefghijklmnop.onion''" "(\<lambda>n u. Raised ''Timeout'')"
      empty_crawler "''http://abcdefghijklmnopqrstuvwxyz0123456789a.onion''"]
  by (simp add: endswith_def empty_crawler_def)

section \<open>The guard of the ledger lookup\<close>

text \<open>
  C10. For an address that \<open>is_valid_btc_address\<close> accepts, \<open>blockstream_fetch\<close> raises
  nothing and makes exactly one lookup, for that address, and the output file is appended
  to only when the answer has status 200 (by the text of the answer and a newline). For an
  address that is not accepted the call raises AssertionError and leaves the world as it
  was: no lookup, no write.
\<close>

theorem blockstream_fetch_guard:
  "(is_valid_btc_address addr \<longrightarrow>
      snd (blockstream_fetch api addr w) = None \<and>
      lookups (fst (blockstream_fetch api addr w)) =
        lookups w @ [''https://blockstream.info/api/address/'' @ addr] \<and>
      output_file (fst (blockstream_fetch api addr w)) =
        (case api (''https://blockstream.info/api/address/'' @ addr) of
           ApiResponse code (Some j) \<Rightarrow>
             if code = 200 then output_file w @ j @ [nl] else output_file w
         | _ \<Rightarrow> output_file w)) \<and>
   (\<not> is_valid_btc_address bad \<longrightarrow>
      blockstream_fetch api bad w = (w, Some AssertionError))"
  by (simp add: blockstream_fetch_def Let_def split: api_result.splits option.splits)

text \<open>The theorem at an accepted address answered with status 200, and at \<open>0xAbC123\<close>.\<close>

theorem blockstream_fetch_guard_witness:
  "is_valid_btc_address ''1A1zP1eP5QGefi2DMPTfTL5SLmv7DivfNa'' \<and>
   lookups (fst (blockstream_fetch (\<lambda>u. ApiResponse 200 (Some ''{}''))
      ''1A1zP1eP5QGefi2DMPTfTL5SLmv7DivfNa'' \<lparr>lookups = [], output_file = []\<rparr>)) =
     [''https://blockstream.info/api/address/1A1zP1eP5QGefi2DMPTfTL5SLmv7DivfNa''] \<and>
   output_file (fst (blockstream_fetch (\<lambda>u. ApiResponse 200 (Some ''{}''))
      ''1A1zP1eP5QGefi2DMPTfTL5SLmv7DivfNa'' \<lparr>lookups = [], output_file = []\<rparr>)) =
     ''{}'' @ [nl] \<and>
   \<not> is_valid_btc_address ''0xAbC123'' \<and>
   blockstream_fetch (\<lambda>u. ApiResponse 200 (Some ''{}'')) ''0xAbC123''
      \<lparr>lookups = [], output_file = []\<rparr> =
     (\<lparr>lookups = [], output_file = []\<rparr>, Some AssertionError)"
proof -
  have v: "is_valid_btc_address ''1A1zP1eP5QGefi2DMPTfTL5SLmv7DivfNa''"
    by (simp add: is_valid_btc_address_def btc_fullmatch_def alnum_run_def is_alnum_ascii_def)
  have b: "\<not> is_valid_btc_address ''0xAbC123''"
    by (simp add: is_valid_btc_address_def btc_fullmatch_def alnum_run_def)
  show ?thesis
    using v b blockstream_fetch_guard [of "''1A1zP1eP5QGefi2DMPTfTL5SLmv7DivfNa''"
        "(\<lambda>u. ApiResponse 200 (Some ''{}''))" "\<lparr>lookups = [], output_file = []\<rparr>" "''0xAbC123''"]
    by simp
qed

section \<open>Suppression of payment addresses that are link targets\<close>

lemma btc_address_search_Some: "btc_address_search t = Some a \<Longrightarrow> a = t"
  by (simp add: btc_address_search_def split: if_splits)

lemma fold_btc_step_subset:
  "set (fold (btc_step links) toks acc) \<subseteq>
     set acc \<union> {t \<in> set toks. btc_address_search t = Some t \<and> Some (t @ ''.onion'') \<notin> set links}"
proof (induction toks arbitrary: acc)
  case Nil
  then show ?case by simp
next
  case (Cons t toks)
  have "set (btc_step links t acc) \<subseteq>
      set acc \<union> {u. u = t \<and> btc_address_search t = Some t \<and> Some (t @ ''.onion'') \<notin> set links}"
    by (auto simp: btc_step_def split: option.splits dest: btc_address_search_Some)
  with Cons.IH [of "btc_step links t acc"] show ?case by auto
qed

text \<open>
  C4. A token is not among the payment addresses of a page when the page has an anchor
  whose target is that token followed by \<open>.onion\<close>. So on a page where every token of the
  payment-address shape is such a link target, no payment address is found, and the record
  written for the page has an empty list of addresses.
\<close>

theorem btc_link_suppression:
  "(Some (tok @ ''.onion'') \<in> set (hrefs p) \<longrightarrow> tok \<notin> set (find_btc_addresses p)) \<and>
   ((\<forall>t \<in> set (page_tokens q). btc_address_search t \<noteq> None \<longrightarrow>
        Some (t @ ''.onion'') \<in> set (hrefs q)) \<longrightarrow>
      find_btc_addresses q = [] \<and>
      (title_string q = Some title \<longrightarrow>
         scrape_btc_addresses q url st =
           (write_data (record_line url
              (dict_value [] (py_strip (filter (\<lambda>c. c \<noteq> nl) title)))) st, None)))"
proof -
  have a: "tok \<notin> set (find_btc_addresses p)" if "Some (tok @ ''.onion'') \<in> set (hrefs p)"
    using fold_btc_step_subset [of "hrefs p" "page_tokens p" "[]"] that
    by (auto simp: find_btc_addresses_def)
  have b: "find_btc_addresses q = []"
    if "\<forall>t \<in> set (page_tokens q). btc_address_search t \<noteq> None \<longrightarrow>
        Some (t @ ''.onion'') \<in> set (hrefs q)"
  proof -
    have "set (fold (btc_step (hrefs q)) (page_tokens q) []) \<subseteq> {}"
      using fold_btc_step_subset [of "hrefs q" "page_tokens q" "[]"] that
      by fastforce
    then show ?thesis by (simp add: find_btc_addresses_def)
  qed
  show ?thesis
    using a b by (auto simp: scrape_btc_addresses_def Let_def)
qed

lemma suppressed_tokens:
  "page_tokens suppressed_page = [''Shop'', ''pay'', ''to'', ''1A1zP1eP5QGefi2DMPTfTL5SLmv7DivfNa'', ''now'']"
  by (simp add: page_tokens_def suppressed_page_def py_split_def is_space_def)

text \<open>The theorem on the example page.\<close>

theorem btc_link_suppression_witness:
  "Some (''1A1zP1eP5QGefi2DMPTfTL5SLmv7DivfNa'' @ ''.onion'') \<in> set (hrefs suppressed_page) \<and>
   btc_address_search ''1A1zP1eP5QGefi2DMPTfTL5SLmv7DivfNa'' \<noteq> None \<and>
   ''1A1zP1eP5QGefi2DMPTfTL5SLmv7DivfNa'' \<in> set (page_tokens suppressed_page) \<and>
   ''1A1zP1eP5QGefi2DMPTfTL5SLmv7DivfNa'' \<notin> set (find_btc_addresses suppressed_page) \<and>
   find_btc_addresses suppressed_page = [] \<and>
   scrape_btc_addresses suppressed_page ''http://shopshopshopshopshopshopshopshopshopshopshopshop1.onion''
       empty_crawler =
     (write_data (record_line ''http://shopshopshopshopshopshopshopshopshopshopshopshop1.onion''
        (dict_value [] ''Shop'')) empty_crawler, None)"
proof -
  have v: "btc_address_search ''1A1zP1eP5QGefi2DMPTfTL5SLmv7DivfNa'' =
      Some ''1A1zP1eP5QGefi2DMPTfTL5SLmv7DivfNa''"
    by (simp add: btc_address_search_def btc_fullmatch_def alnum_run_def is_alnum_ascii_def)
  have n: "btc_address_search ''Shop'' = None" "btc_address_search ''pay'' = None"
    "btc_address_search ''to'' = None" "btc_address_search ''now'' = None"
    by (simp_all add: btc_address_search_def btc_fullmatch_def alnum_run_def)
  have h: "Some (''1A1zP1eP5QGefi2DMPTfTL5SLmv7DivfNa'' @ ''.onion'') \<in> set (hrefs suppressed_page)"
    by (simp add: suppressed_page_def)
  have all: "\<forall>t \<in> set (page_tokens suppressed_page). btc_address_search t \<noteq> None \<longrightarrow>
        Some (t @ ''.onion'') \<in> set (hrefs suppressed_page)"
    using h n by (simp add: suppressed_tokens)
  have t: "title_string suppressed_page = Some ''Shop''" by (simp add: suppressed_page_def)
  have s: "py_strip (filter (\<lambda>c. c \<noteq> nl) ''Shop'') = ''Shop''"
    by (simp add: py_strip_def nl_def is_space_def)
  show ?thesis
    using v h all t s
      btc_link_suppression [of "''1A1zP1eP5QGefi2DMPTfTL5SLmv7DivfNa''" suppressed_page
        suppressed_page "''Shop''" "''http://shopshopshopshopshopshopshopshopshopshopshopshop1.onion''"
        empty_crawler]
    by (simp add: suppressed_tokens)
qed

text \<open>A link with a scheme in front of the token does not suppress it.\<close>

lemma scheme_link_not_suppressed:
  "find_btc_addresses
     (suppressed_page\<lparr>hrefs := [Some ''http://1A1zP1eP5QGefi2DMPTfTL5SLmv7DivfNa.onion'']\<rparr>) =
   [''1A1zP1eP5QGefi2DMPTfTL5SLmv7DivfNa'']"
proof -
  have v: "btc_address_search ''1A1zP1eP5QGefi2DMPTfTL5SLmv7DivfNa'' =
      Some ''1A1zP1eP5QGefi2DMPTfTL5SLmv7DivfNa''"
    by (simp add: btc_address_search_def btc_fullmatch_def alnum_run_def is_alnum_ascii_def)
  have n: "btc_address_search ''Shop'' = None" "btc_address_search ''pay'' = None"
    "btc_address_search ''to'' = None" "btc_address_search ''now'' = None"
    by (simp_all add: btc_address_search_def btc_fullmatch_def alnum_run_def)
  have tk: "page_tokens (suppressed_page\<lparr>hrefs := [Some ''http://1A1zP1eP5QGefi2DMPTfTL5SLmv7DivfNa.onion'']\<rparr>)
      = page_tokens suppressed_page"
    by (simp add: page_tokens_def)
  show ?thesis
    by (simp add: find_btc_addresses_def tk suppressed_tokens btc_step_def v n)
qed

section \<open>One record for every address scraped\<close>

text \<open>
  Whenever the address takes the shortcut, the request raises, the status is not 200, or
  the page has a title string, \<open>scrape_url\<close> raises nothing and appends exactly one record
  for the address to the data file.
\<close>

lemma one_recordI:
  assumes "r = (write_data (record_line url v) s, None)"
    and "data_file s = data_file st"
    and "(\<exists>x. v = status_value x) \<or> (\<exists>addrs title. v = dict_value addrs title)"
  shows "snd r = None \<and>
         (\<exists>v. data_file (fst r) = data_file st @ record_line url v \<and>
              ((\<exists>s. v = status_value s) \<or> (\<exists>addrs title. v = dict_value addrs title)))"
proof -
  from assms(1,2) have "data_file (fst r) = data_file st @ record_line url v" by simp
  with assms(1,3) show ?thesis by (intro conjI exI [of _ v]) simp_all
qed

lemma scrape_url_with_one_record:
  assumes sl: "\<And>p s. data_file (sl p s) = data_file s"
    and ok: "is_v2_address url \<or>
         (case net (length (requests st)) url of
            Raised e \<Rightarrow> True
          | Response code p \<Rightarrow> code \<noteq> 200 \<or> title_string p \<noteq> None)"
  shows "snd (scrape_url_with sl net url st) = None \<and>
         (\<exists>v. data_file (fst (scrape_url_with sl net url st)) = data_file st @ record_line url v \<and>
              ((\<exists>s. v = status_value s) \<or> (\<exists>addrs title. v = dict_value addrs title)))"
proof (cases "is_v2_address url")
  case True
  then have "scrape_url_with sl net url st =
      (write_data (record_line url (status_value ''V2 address (deprecated)''))
         (log_iter url ''V2 address (deprecated)'' st), None)"
    by (simp add: scrape_url_with_def)
  then show ?thesis by (rule one_recordI) (simp, blast)
next
  case False
  show ?thesis
  proof (cases "net (length (requests st)) url")
    case (Raised e)
    with False have "scrape_url_with sl net url st =
      (write_data (record_line url (status_value (''Exception: '' @ e)))
         (log_iter url e (st\<lparr>requests := requests st @ [url]\<rparr>)), None)"
      by (simp add: scrape_url_with_def Let_def)
    then show ?thesis by (rule one_recordI) (simp, blast)
  next
    case (Response code p)
    show ?thesis
    proof (cases "code = 200")
      case True
      with Response ok False obtain t where t: "title_string p = Some t" by auto
      with True Response False have "scrape_url_with sl net url st =
        (write_data (record_line url
           (dict_value (find_btc_addresses p) (py_strip (filter (\<lambda>c. c \<noteq> nl) t))))
           (sl p (log_iter url (''HTTP '' @ str_nat code) (st\<lparr>requests := requests st @ [url]\<rparr>))),
         None)"
        by (simp add: scrape_url_with_def Let_def scrape_btc_addresses_def)
      then show ?thesis by (rule one_recordI) (simp add: sl, blast)
    next
      case c: False
      with Response False have "scrape_url_with sl net url st =
        (write_data (record_line url (status_value (''HTTP error: '' @ str_nat code)))
           (log_iter url (''HTTP '' @ str_nat code) (st\<lparr>requests := requests st @ [url]\<rparr>)),
         None)"
        by (simp add: scrape_url_with_def Let_def)
      then show ?thesis by (rule one_recordI) (simp, blast)
    qed
  qed
qed

text \<open>
  C2. The claim is that every address processed by \<open>scrape_url\<close> yields exactly one
  record, also a page with status 200 and no title element. On such a page the call
  marks the address as searched and then leaves with AttributeError, and the data file is
  as it was: there is no record for the address.
\<close>

theorem missing_title_no_record:
  assumes "\<not> is_v2_address url"
    and "net (length (requests st)) url = Response 200 p"
    and "title_string p = None"
  shows "snd (mt_scrape_url net url st) = Some AttributeError \<and>
         data_file (fst (mt_scrape_url net url st)) = data_file st \<and>
         url \<in> searched (fst (mt_scrape_url net url st)) \<and>
         snd (dark_scrape_url net url st) = Some AttributeError \<and>
         data_file (fst (dark_scrape_url net url st)) = data_file st"
  using assms
  by (simp add: mt_scrape_url_def dark_scrape_url_def scrape_url_with_def Let_def
      scrape_btc_addresses_def)

text \<open>The theorem on a page with no title, at an address of 62 characters.\<close>

theorem missing_title_no_record_witness:
  "\<not> is_v2_address ''http://shopshopshopshopshopshopshopshopshopshopshopshop1.onion'' \<and>
   snd (mt_scrape_url (\<lambda>n u. Response 200 untitled_page)
     ''http://shopshopshopshopshopshopshopshopshopshopshopshop1.onion'' empty_crawler) =
     Some AttributeError \<and>
   data_file (fst (mt_scrape_url (\<lambda>n u. Response 200 untitled_page)
     ''http://shopshopshopshopshopshopshopshopshopshopshopshop1.onion'' empty_crawler)) = []"
proof -
  have v: "\<not> is_v2_address ''http://shopshopshopshopshopshopshopshopshopshopshopshop1.onion''"
    by (simp add: is_v2_address_def)
  have t: "title_string untitled_page = None" by (simp add: untitled_page_def)
  show ?thesis
    using v missing_title_no_record [OF v _ t,
        of "(\<lambda>n u. Response 200 untitled_page)" empty_crawler]
    by (simp add: empty_crawler_def)
qed

section \<open>Resuming from a savestate\<close>

text \<open>No method and no \<open>__init__\<close> binds the name \<open>output_path\<close>.\<close>

lemma getattr_output_path: "getattr ''output_path'' = Inl AttributeError"
  by (simp add: getattr_def crawler_attributes_def)

lemma dark_load_prev_crawl_raises:
  "dark_load_prev_crawl env st =
     Inl (if savestate_eval env = None then SavestateError else AttributeError)"
  by (simp add: dark_load_prev_crawl_def base_load_prev_crawl_def getattr_output_path
      split: option.splits prod.splits)

text \<open>
  C6. The claim is that a resumed run rebuilds \<open>seen\<close> from the savestate and strips the
  last line of the data file. With a resume path, \<open>_load_prev_crawl\<close> of DarkCrawler
  raises AttributeError at \<open>self.output_path\<close> once the savestate is read (and whatever
  reading the savestate raises, when that fails), so \<open>_setup_structs\<close> and \<open>crawl\<close> of
  both DarkCrawler and MultiThreadedDarkCrawler end by that exception: the data file is
  not touched and \<open>seen\<close> is never assigned from the savestate.
\<close>

theorem resume_raises:
  assumes "truthy (resume_path cfg)"
  shows "mt_load_prev_crawl env st =
           Inl (if savestate_eval env = None then SavestateError else AttributeError) \<and>
         mt_setup_structs cfg env st = mt_load_prev_crawl env st \<and>
         dark_setup_structs cfg env st = mt_load_prev_crawl env st \<and>
         mt_crawl cfg env workers st = Some (mt_load_prev_crawl env st)"
proof -
  have l: "mt_load_prev_crawl env s =
      Inl (if savestate_eval env = None then SavestateError else AttributeError)" for s
    by (simp add: mt_load_prev_crawl_def dark_load_prev_crawl_raises)
  have m: "mt_setup_structs cfg env st = mt_load_prev_crawl env st"
    using assms by (simp add: mt_setup_structs_def setup_structs_with_def l)
  have d: "dark_setup_structs cfg env st = mt_load_prev_crawl env st"
    using assms by (simp add: dark_setup_structs_def setup_structs_with_def l
        dark_load_prev_crawl_raises)
  have c: "mt_crawl cfg env workers st = Some (mt_load_prev_crawl env st)"
    by (simp add: mt_crawl_def m l)
  from l m d c show ?thesis by simp
qed

text \<open>The theorem on the resumed run of the examples.\<close>

theorem resume_raises_witness:
  "truthy (resume_path resume_config) \<and>
   mt_setup_structs resume_config resume_environment empty_crawler = Inl AttributeError \<and>
   mt_crawl resume_config resume_environment (\<lambda>k s. s) empty_crawler = Some (Inl AttributeError)"
proof -
  have t: "truthy (resume_path resume_config)"
    by (simp add: truthy_def resume_config_def)
  show ?thesis
    using t resume_raises [OF t, of resume_environment empty_crawler "\<lambda>k s. s"]
    by (simp add: resume_environment_def)
qed

section \<open>The start of a fresh run\<close>

text \<open>The keyword loop appends the derived address of every line that is not searched yet.\<close>

lemma load_ahmia_seeds_queue:
  "fold load_ahmia_seed kws st =
     st\<lparr>queue := queue st @ filter (\<lambda>l. l \<notin> searched st) (map kw_link kws)\<rparr>"
proof (induction kws arbitrary: st)
  case Nil
  then show ?case by simp
next
  case (Cons kw kws)
  then show ?case by (simp add: load_ahmia_seed_def)
qed

text \<open>
  Against C7 as it is stated. On the fresh run of the examples the queue holds the seed twice and two derived
  addresses for one keyword, the second being the bare prefix that the blank line gives;
  \<open>seen\<close> is empty.
\<close>

theorem fresh_setup_counterexample:
  "\<not> isl (mt_setup_structs fresh_config fresh_environment empty_crawler) \<and>
   queue (projr (mt_setup_structs fresh_config fresh_environment empty_crawler)) =
     [''http://seedxxxxxxxxxxxxxxx.onion'', ''http://seedxxxxxxxxxxxxxxx.onion'',
      ''https://ahmia.fi/search/?q=hidden+wiki'', ''https://ahmia.fi/search/?q=''] \<and>
   seen (projr (mt_setup_structs fresh_config fresh_environment empty_crawler)) = {}"
  by (simp add: mt_setup_structs_def setup_structs_with_def fresh_config_def
      fresh_environment_def empty_crawler_def truthy_def load_ahmia_seeds_def
      load_ahmia_seed_def kw_link_def ahmia_link_def py_strip_def py_replace_def
      is_space_def nl_def write_data_def)

text \<open>
  C7, amended. A fresh run (no resume path) of MultiThreadedDarkCrawler sets the queue to
  the seed list as it is given, followed, when a keyword file is given, by one derived
  address for every line of the file: the prefix \<open>https://ahmia.fi/search/?q=\<close> and the
  stripped line with every space replaced by \<open>+\<close>. The searched set is empty and the
  opening marker is appended to the data file.
\<close>

theorem fresh_setup:
  assumes "\<not> truthy (resume_path cfg)"
  shows "\<exists>st'. mt_setup_structs cfg env st = Inr st' \<and>
           queue st' = seeds cfg @
             (if truthy (ahmia_keyword_path cfg) then map kw_link (keyword_lines env) else []) \<and>
           searched st' = {} \<and>
           data_file st' = data_file st @ ''{'' @ [nl]"
  using assms
  by (simp add: mt_setup_structs_def setup_structs_with_def load_ahmia_seeds_def
      load_ahmia_seeds_queue write_data_def)

text \<open>The theorem on the fresh run of the examples.\<close>

theorem fresh_setup_witness:
  "\<not> truthy (resume_path fresh_config) \<and>
   (\<exists>st'. mt_setup_structs fresh_config fresh_environment empty_crawler = Inr st' \<and>
      queue st' =
        [''http://seedxxxxxxxxxxxxxxx.onion'', ''http://seedxxxxxxxxxxxxxxx.onion'',
         kw_link (''hidden wiki'' @ [nl]), kw_link [nl]] \<and>
      searched st' = {} \<and> data_file st' = ''{'' @ [nl])"
proof -
  have t: "\<not> truthy (resume_path fresh_config)"
    by (simp add: truthy_def fresh_config_def)
  show ?thesis
    using t fresh_setup [OF t, of fresh_environment empty_crawler]
    by (simp add: fresh_config_def fresh_environment_def empty_crawler_def truthy_def)
qed

text \<open>
  On a fresh run the seeds are in the queue and not in \<open>seen\<close>, so a seed that a page links
  to passes the enqueue check and enters the queue a second time.
\<close>

lemma seed_enqueued_again:
  "queue (run_frontier [Discover (Some ''http://abcdefghijklmnop.onion'')]
     (projr (mt_setup_structs limited_config \<lparr>savestate_eval = None, keyword_lines = []\<rparr>
        empty_crawler))) =
   [''http://abcdefghijklmnop.onion'', ''http://abcdefghijklmnop.onion'']"
proof -
  have f: "onion_address_search (Some ''http://abcdefghijklmnop.onion'') =
      Some ''http://abcdefghijklmnop.onion''"
    by (simp add: onion_address_search_def onion_match_here_def Let_def
        is_word_char_def is_alnum_ascii_def)
  show ?thesis
    by (simp add: mt_setup_structs_def setup_structs_with_def limited_config_def truthy_def
        empty_crawler_def write_data_def run_frontier_def mt_scrape_link_def f
        enqueue_check_def mt_is_new_onion_address_def)
qed

section \<open>Termination of the run loops\<close>

text \<open>The multithreaded loop returns only through the test of the search limit.\<close>

lemma mt_crawl_loop_Some_limit:
  assumes "mt_crawl_loop cfg workers k st = Some y"
  shows "search_limit cfg \<noteq> \<infinity>"
  by (rule mt_crawl_loop.raw_induct
        [where P = "\<lambda>cfg workers k st y. search_limit cfg \<noteq> \<infinity>", OF _ assms])
     (auto simp: limit_reached_def split: if_splits dest: enat_ile)

text \<open>
  C9. With the search limit \<open>math.inf\<close> and no interrupt the loop of
  \<open>MultiThreadedDarkCrawler.crawl\<close> does not return, whatever the workers do and whatever
  the queue holds (so also when the queue is empty and no work is left), and neither does
  \<open>crawl\<close> on a fresh run. The loop of \<open>BaseCrawler.crawl\<close> returns at once when its queue
  is empty.
\<close>

theorem run_loops:
  "(search_limit cfg = \<infinity> \<longrightarrow> mt_crawl_loop cfg workers k st = None) \<and>
   (search_limit cfg = \<infinity> \<and> \<not> truthy (resume_path cfg) \<longrightarrow> mt_crawl cfg env workers st = None) \<and>
   (queue st' = [] \<longrightarrow> base_crawl_loop cfg' net st' = Some st')"
proof -
  have a: "mt_crawl_loop cfg workers j s = None" if "search_limit cfg = \<infinity>" for j s
    using that mt_crawl_loop_Some_limit [of cfg workers j s] by (cases "mt_crawl_loop cfg workers j s") auto
  have b: "mt_crawl cfg env workers st = None"
    if "search_limit cfg = \<infinity>" "\<not> truthy (resume_path cfg)"
    using that a by (simp add: mt_crawl_def mt_setup_structs_def setup_structs_with_def)
  have c: "base_crawl_loop cfg' net st' = Some st'" if "queue st' = []"
    using that by (simp add: base_crawl_loop.simps)
  from a b c show ?thesis by blast
qed

text \<open>The theorem on the empty state, with workers that do nothing.\<close>

theorem run_loops_witness:
  "search_limit fresh_config = \<infinity> \<and> \<not> truthy (resume_path fresh_config) \<and>
   mt_crawl_loop fresh_config (\<lambda>k s. s) 0 empty_crawler = None \<and>
   mt_crawl fresh_config fresh_environment (\<lambda>k s. s) empty_crawler = None \<and>
   queue empty_crawler = [] \<and>
   base_crawl_loop fresh_config (\<lambda>n u. Raised ''Timeout'') empty_crawler = Some empty_crawler"
  using run_loops [where cfg = fresh_config and workers = "\<lambda>k s. s" and k = 0
      and st = empty_crawler and env = fresh_environment and st' = empty_crawler
      and cfg' = fresh_config and net = "\<lambda>n u. Raised ''Timeout''"]
  by (simp add: fresh_config_def truthy_def empty_crawler_def)

section \<open>The dedup invariant of the frontier\<close>

text \<open>A match of the onion pattern is never the empty string.\<close>

lemma onion_match_here_nonempty: "onion_match_here s = Some m \<Longrightarrow> m \<noteq> []"
  by (auto simp: onion_match_here_def Let_def split: option.splits if_splits)

lemma onion_search_nonempty: "onion_search s = Some m \<Longrightarrow> m \<noteq> []"
  by (induction s) (auto split: option.splits dest: onion_match_here_nonempty)

lemma onion_address_search_nonempty: "onion_address_search h = Some a \<Longrightarrow> a \<noteq> []"
  by (auto simp: onion_address_search_def split: option.splits if_splits
      dest: onion_search_nonempty)

text \<open>A call of \<open>_scrape_links\<close> is the list of the events of its anchors.\<close>

lemma mt_scrape_links_events:
  "mt_scrape_links p st = run_frontier (map Discover (hrefs p)) st"
proof -
  have "(\<lambda>h. frontier_step (Discover h)) = mt_scrape_link"
    by (intro ext) simp
  then show ?thesis
    by (simp add: mt_scrape_links_def run_frontier_def fold_map comp_def)
qed

lemma frontier_step_admits:
  "\<exists>new. submitted (frontier_step e st) @ queue (frontier_step e st) =
            submitted st @ queue st @ new \<and>
          seen (frontier_step e st) = seen st \<union> set new \<and>
          distinct new \<and> set new \<inter> seen st = {} \<and>
          seen st \<union> set new = seen st \<union> set (passed_in [e])"
proof (cases e)
  case DrainBatch
  then show ?thesis by (simp add: drain_batch_def)
next
  case (Discover h)
  show ?thesis
  proof (cases "onion_address_search h")
    case None
    with Discover show ?thesis by (simp add: mt_scrape_link_def enqueue_check_def)
  next
    case (Some a)
    then have ne: "a \<noteq> []" by (rule onion_address_search_nonempty)
    show ?thesis
    proof (cases "a \<in> seen st")
      case True
      with Some Discover show ?thesis
        by (auto simp: mt_scrape_link_def enqueue_check_def mt_is_new_onion_address_def)
    next
      case False
      with Some Discover ne show ?thesis
        by (intro exI [of _ "[a]"])
           (simp add: mt_scrape_link_def enqueue_check_def mt_is_new_onion_address_def)
    qed
  qed
qed

lemma passed_in_Cons: "set (passed_in (e # evs)) = set (passed_in [e]) \<union> set (passed_in evs)"
  by (cases e) (auto split: option.splits)

lemma run_frontier_admits:
  "\<exists>adm. submitted (run_frontier evs st) @ queue (run_frontier evs st) =
            submitted st @ queue st @ adm \<and>
          seen (run_frontier evs st) = seen st \<union> set adm \<and>
          distinct adm \<and> set adm \<inter> seen st = {} \<and>
          seen st \<union> set adm = seen st \<union> set (passed_in evs)"
proof (induction evs arbitrary: st)
  case Nil
  then show ?case by (simp add: run_frontier_def)
next
  case (Cons e evs)
  obtain new where new:
    "submitted (frontier_step e st) @ queue (frontier_step e st) = submitted st @ queue st @ new"
    "seen (frontier_step e st) = seen st \<union> set new"
    "distinct new" "set new \<inter> seen st = {}"
    "seen st \<union> set new = seen st \<union> set (passed_in [e])"
    using frontier_step_admits [of e st] by blast
  obtain adm where adm:
    "submitted (run_frontier evs (frontier_step e st)) @ queue (run_frontier evs (frontier_step e st)) =
       submitted (frontier_step e st) @ queue (frontier_step e st) @ adm"
    "seen (run_frontier evs (frontier_step e st)) = seen (frontier_step e st) \<union> set adm"
    "distinct adm" "set adm \<inter> seen (frontier_step e st) = {}"
    "seen (frontier_step e st) \<union> set adm = seen (frontier_step e st) \<union> set (passed_in evs)"
    using Cons.IH [of "frontier_step e st"] by blast
  have run: "run_frontier (e # evs) st = run_frontier evs (frontier_step e st)"
    by (simp add: run_frontier_def)
  have 1: "submitted (run_frontier (e # evs) st) @ queue (run_frontier (e # evs) st) =
            submitted st @ queue st @ (new @ adm)"
    using adm(1) new(1) by (simp add: run)
  have 2: "seen (run_frontier (e # evs) st) = seen st \<union> set (new @ adm)"
    using adm(2) new(2) by (auto simp: run)
  have 3: "distinct (new @ adm)"
    using new(2,3) adm(3,4) by auto
  have 4: "set (new @ adm) \<inter> seen st = {}"
    using new(2,4) adm(4) by auto
  have 5: "seen st \<union> set (new @ adm) = seen st \<union> set (passed_in (e # evs))"
    using new(2,5) adm(5) unfolding passed_in_Cons [of e evs] by auto
  from 1 2 3 4 5 show ?case by blast
qed

lemma set_concat_update:
  assumes "i < length xss" and "xss ! i = x # xs"
  shows "set (concat xss) = insert x (set (concat (xss[i := xs])))"
proof -
  have "xss = take i xss @ (x # xs) # drop (Suc i) xss"
    using assms by (metis id_take_nth_drop)
  moreover have "xss[i := xs] = take i xss @ xs # drop (Suc i) xss"
    using assms(1) by (rule upd_conv_take_nth_drop)
  ultimately have "concat xss = concat (take i xss) @ (x # xs) @ concat (drop (Suc i) xss)"
    and "concat (xss[i := xs]) = concat (take i xss) @ xs @ concat (drop (Suc i) xss)"
    by (metis concat.simps(2) concat_append)+
  then show ?thesis by auto
qed

lemma set_interleave: "set (interleave sched xss) = set (concat xss)"
proof (induction sched arbitrary: xss)
  case Nil
  then show ?case by simp
next
  case (Cons i sched)
  show ?case
  proof (cases "i < length xss")
    case False
    with Cons.IH show ?thesis by simp
  next
    case True
    show ?thesis
    proof (cases "xss ! i")
      case Nil
      with True Cons.IH show ?thesis by simp
    next
      case (Cons x xs)
      have "set (interleave (i # sched) xss) = insert x (set (interleave sched (xss[i := xs])))"
        using True Cons by simp
      also have "\<dots> = insert x (set (concat (xss[i := xs])))"
        using Cons.IH by simp
      also have "\<dots> = set (concat xss)"
        using set_concat_update [OF True Cons] by simp
      finally show ?thesis .
    qed
  qed
qed

lemma passed_in_Discover:
  "set (passed_in (map Discover hs)) = {a. Some a \<in> onion_address_search ` set hs}"
proof (induction hs)
  case Nil
  then show ?case by simp
next
  case (Cons h hs)
  then show ?case by (cases "onion_address_search h") (auto simp: image_iff)
qed

text \<open>
  Whatever the state, the enqueue checks of any list of events admit pairwise distinct
  addresses, none of which was in \<open>seen\<close> before, and \<open>seen\<close> grows by the addresses
  passed in; from an empty \<open>seen\<close>, for any number of callers and any schedule of them,
  \<open>seen\<close> after the events is the set of the addresses found in their links.
\<close>

lemma enqueue_checks_admit_once:
  "(\<exists>adm. submitted (run_frontier evs st) @ queue (run_frontier evs st) =
            submitted st @ queue st @ adm \<and>
          distinct adm \<and> set adm \<inter> seen st = {} \<and>
          seen (run_frontier evs st) = seen st \<union> set adm \<and>
          seen (run_frontier evs st) = seen st \<union> set (passed_in evs)) \<and>
   (seen st = {} \<longrightarrow>
      seen (run_frontier (map Discover (interleave sched callers)) st) =
        {a. Some a \<in> onion_address_search ` set (concat callers)})"
proof -
  obtain adm where adm:
    "submitted (run_frontier evs st) @ queue (run_frontier evs st) = submitted st @ queue st @ adm"
    "seen (run_frontier evs st) = seen st \<union> set adm"
    "distinct adm" "set adm \<inter> seen st = {}"
    "seen st \<union> set adm = seen st \<union> set (passed_in evs)"
    using run_frontier_admits [of evs st] by blast
  then have "seen (run_frontier evs st) = seen st \<union> set (passed_in evs)" by simp
  with adm have first: "\<exists>adm. submitted (run_frontier evs st) @ queue (run_frontier evs st) =
            submitted st @ queue st @ adm \<and>
          distinct adm \<and> set adm \<inter> seen st = {} \<and>
          seen (run_frontier evs st) = seen st \<union> set adm \<and>
          seen (run_frontier evs st) = seen st \<union> set (passed_in evs)"
    by (intro exI [of _ adm]) simp
  have second: "seen (run_frontier (map Discover (interleave sched callers)) st) =
        {a. Some a \<in> onion_address_search ` set (concat callers)}" if "seen st = {}"
  proof -
    obtain adm' where
      "seen (run_frontier (map Discover (interleave sched callers)) st) = seen st \<union> set adm'"
      "seen st \<union> set adm' = seen st \<union> set (passed_in (map Discover (interleave sched callers)))"
      using run_frontier_admits [of "map Discover (interleave sched callers)" st] by blast
    with that show ?thesis
      by (simp add: passed_in_Discover set_interleave del: set_concat)
  qed
  from first second show ?thesis by blast
qed

lemma two_callers_interleaved:
  "interleave [1, 0, 0, 1] two_callers =
     [Some ''http://aaaaaaaaaaaaaaaaaaaaaaaaaaaaaaaaaaaaaaaaaaaaaaaaaaaaaaaa.onion/y'',
      Some ''http://aaaaaaaaaaaaaaaaaaaaaaaaaaaaaaaaaaaaaaaaaaaaaaaaaaaaaaaa.onion/x'',
      Some ''https://bbbbbbbbbbbbbbbbbbbbbbbbbbbbbbbbbbbbbbbbbbbbbbbbbbbbbbbb.onion'',
      Some ''mailto:shop@example.com'', None]"
  by (simp add: two_callers_def)

lemma two_callers_found:
  "onion_address_search (Some ''http://aaaaaaaaaaaaaaaaaaaaaaaaaaaaaaaaaaaaaaaaaaaaaaaaaaaaaaaa.onion/x'') =
     Some ''http://aaaaaaaaaaaaaaaaaaaaaaaaaaaaaaaaaaaaaaaaaaaaaaaaaaaaaaaa.onion''"
  "onion_address_search (Some ''http://aaaaaaaaaaaaaaaaaaaaaaaaaaaaaaaaaaaaaaaaaaaaaaaaaaaaaaaa.onion/y'') =
     Some ''http://aaaaaaaaaaaaaaaaaaaaaaaaaaaaaaaaaaaaaaaaaaaaaaaaaaaaaaaa.onion''"
  "onion_address_search (Some ''https://bbbbbbbbbbbbbbbbbbbbbbbbbbbbbbbbbbbbbbbbbbbbbbbbbbbbbbbb.onion'') =
     Some ''https://bbbbbbbbbbbbbbbbbbbbbbbbbbbbbbbbbbbbbbbbbbbbbbbbbbbbbbbb.onion''"
  "onion_address_search (Some ''mailto:shop@example.com'') = None"
  "onion_address_search None = None"
  by (simp_all add: onion_address_search_def onion_match_here_def Let_def
      is_word_char_def is_alnum_ascii_def)

text \<open>Two callers that find the same address, under one schedule.\<close>

lemma two_callers_admitted:
  "seen empty_crawler = {} \<and>
   seen (run_frontier (map Discover (interleave [1, 0, 0, 1] two_callers)) empty_crawler) =
     {''http://aaaaaaaaaaaaaaaaaaaaaaaaaaaaaaaaaaaaaaaaaaaaaaaaaaaaaaaa.onion'',
      ''https://bbbbbbbbbbbbbbbbbbbbbbbbbbbbbbbbbbbbbbbbbbbbbbbbbbbbbbbb.onion''} \<and>
   queue (run_frontier (map Discover (interleave [1, 0, 0, 1] two_callers)) empty_crawler) =
     [''http://aaaaaaaaaaaaaaaaaaaaaaaaaaaaaaaaaaaaaaaaaaaaaaaaaaaaaaaa.onion'',
      ''https://bbbbbbbbbbbbbbbbbbbbbbbbbbbbbbbbbbbbbbbbbbbbbbbbbbbbbbbb.onion'']"
proof -
  have s: "seen empty_crawler = {}" by (simp add: empty_crawler_def)
  have c: "{a. Some a \<in> onion_address_search ` set (concat two_callers)} =
     {''http://aaaaaaaaaaaaaaaaaaaaaaaaaaaaaaaaaaaaaaaaaaaaaaaaaaaaaaaa.onion'',
      ''https://bbbbbbbbbbbbbbbbbbbbbbbbbbbbbbbbbbbbbbbbbbbbbbbbbbbbbbbb.onion''}"
    by (auto simp: two_callers_def two_callers_found image_iff)
  have q: "queue (run_frontier (map Discover (interleave [1, 0, 0, 1] two_callers)) empty_crawler) =
     [''http://aaaaaaaaaaaaaaaaaaaaaaaaaaaaaaaaaaaaaaaaaaaaaaaaaaaaaaaa.onion'',
      ''https://bbbbbbbbbbbbbbbbbbbbbbbbbbbbbbbbbbbbbbbbbbbbbbbbbbbbbbbb.onion'']"
    unfolding two_callers_interleaved
    by (simp add: run_frontier_def mt_scrape_link_def two_callers_found
        enqueue_check_def mt_is_new_onion_address_def empty_crawler_def)
  have th: "seen (run_frontier (map Discover (interleave [1, 0, 0, 1] two_callers)) empty_crawler) =
      {a. Some a \<in> onion_address_search ` set (concat two_callers)}"
    using s enqueue_checks_admit_once [where st = empty_crawler and sched = "[1, 0, 0, 1]"
        and callers = two_callers]
    by blast
  show ?thesis
    by (intro conjI) (rule s, rule th [unfolded c], rule q)
qed

text \<open>
  When \<open>seen\<close> covers the queue and the submitted work, as it would after a resume, no
  address is in them twice, whatever the events.
\<close>

lemma covered_frontier_stays_distinct:
  assumes "distinct (submitted st @ queue st)" and "set (submitted st @ queue st) \<subseteq> seen st"
  shows "distinct (submitted (run_frontier evs st) @ queue (run_frontier evs st)) \<and>
         set (submitted (run_frontier evs st) @ queue (run_frontier evs st)) \<subseteq>
           seen (run_frontier evs st)"
proof -
  obtain adm where adm:
    "submitted (run_frontier evs st) @ queue (run_frontier evs st) = submitted st @ queue st @ adm"
    "seen (run_frontier evs st) = seen st \<union> set adm"
    "distinct adm" "set adm \<inter> seen st = {}"
    using run_frontier_admits [of evs st] by blast
  have "distinct ((submitted st @ queue st) @ adm)"
    using assms adm(3,4) by (simp only: distinct_append) blast
  moreover have "set ((submitted st @ queue st) @ adm) \<subseteq> seen st \<union> set adm"
    using assms(2) by auto
  ultimately show ?thesis using adm(1,2) by (simp only: append_assoc) 
qed

lemma load_ahmia_seeds_frame:
  "seen (load_ahmia_seeds env st) = seen st"
  "submitted (load_ahmia_seeds env st) = submitted st"
  "set (queue st) \<subseteq> set (queue (load_ahmia_seeds env st))"
  by (simp_all add: load_ahmia_seeds_def load_ahmia_seeds_queue)

text \<open>
  C1. The claim is that an address is admitted to the pending queue at most once over the
  lifetime of a run. A fresh run puts the seeds into the queue and leaves \<open>seen\<close> empty, so
  when a page links to a seed the enqueue check finds the address new and admits it: after
  the start, a round of the run loop, the check of that link and one more round, the seed
  has been submitted to the executor at least twice.
\<close>

theorem seed_admitted_again:
  assumes fresh: "\<not> truthy (resume_path cfg)"
    and seed: "s \<in> set (seeds cfg)"
    and link: "onion_address_search href = Some s"
  shows "\<exists>st1. mt_setup_structs cfg env st = Inr st1 \<and>
           s \<in> set (queue st1) \<and> s \<notin> seen st1 \<and>
           queue (mt_scrape_link href (drain_batch st1)) = [s] \<and>
           2 \<le> count_list (submitted (run_frontier [DrainBatch, Discover href, DrainBatch] st1)) s"
proof -
  let ?s0 = "write_data (''{'' @ [nl]) (st\<lparr>seen := {}, queue := seeds cfg, searched := {}\<rparr>)"
  let ?s1 = "if truthy (ahmia_keyword_path cfg) then load_ahmia_seeds env ?s0 else ?s0"
  have su: "mt_setup_structs cfg env st = Inr ?s1"
    using fresh by (simp add: mt_setup_structs_def setup_structs_with_def)
  have sn: "seen ?s1 = {}" by (simp add: load_ahmia_seeds_frame)
  have q: "s \<in> set (queue ?s1)"
    using seed load_ahmia_seeds_frame(3) [of ?s0 env] by auto
  have ne: "s \<noteq> []" using link by (rule onion_address_search_nonempty)
  have d: "mt_scrape_link href (drain_batch ?s1) =
      (drain_batch ?s1)\<lparr>seen := {s}, queue := [s]\<rparr>"
    using link ne sn
    by (simp add: mt_scrape_link_def enqueue_check_def mt_is_new_onion_address_def drain_batch_def)
  have r: "submitted (run_frontier [DrainBatch, Discover href, DrainBatch] ?s1) =
      submitted ?s1 @ queue ?s1 @ [s]"
    by (simp add: run_frontier_def d) (simp add: drain_batch_def)
  have "1 \<le> count_list (queue ?s1) s"
    using q count_list_0_iff [of "queue ?s1" s] by (cases "count_list (queue ?s1) s") simp_all
  then have c: "2 \<le> count_list (submitted (run_frontier [DrainBatch, Discover href, DrainBatch] ?s1)) s"
    by (simp add: r)
  from su q sn d c show ?thesis by (intro exI [of _ ?s1]) simp
qed

text \<open>The theorem on a run from one seed, and a link to a page of that seed.\<close>

theorem seed_admitted_again_witness:
  "\<not> truthy (resume_path limited_config) \<and>
   ''http://abcdefghijklmnop.onion'' \<in> set (seeds limited_config) \<and>
   onion_address_search (Some ''http://abcdefghijklmnop.onion/index.html'') =
     Some ''http://abcdefghijklmnop.onion'' \<and>
   (\<exists>st1. mt_setup_structs limited_config \<lparr>savestate_eval = None, keyword_lines = []\<rparr>
            empty_crawler = Inr st1 \<and>
      2 \<le> count_list (submitted (run_frontier
          [DrainBatch, Discover (Some ''http://abcdefghijklmnop.onion/index.html''), DrainBatch]
          st1)) ''http://abcdefghijklmnop.onion'')"
proof -
  have f: "\<not> truthy (resume_path limited_config)"
    by (simp add: limited_config_def truthy_def)
  have s: "''http://abcdefghijklmnop.onion'' \<in> set (seeds limited_config)"
    by (simp add: limited_config_def)
  have l: "onion_address_search (Some ''http://abcdefghijklmnop.onion/index.html'') =
     Some ''http://abcdefghijklmnop.onion''"
    by (simp add: onion_address_search_def onion_match_here_def Let_def
        is_word_char_def is_alnum_ascii_def)
  from seed_admitted_again [OF f s l, of "\<lparr>savestate_eval = None, keyword_lines = []\<rparr>" empty_crawler]
  have "\<exists>st1. mt_setup_structs limited_config \<lparr>savestate_eval = None, keyword_lines = []\<rparr>
            empty_crawler = Inr st1 \<and>
      2 \<le> count_list (submitted (run_frontier
          [DrainBatch, Discover (Some ''http://abcdefghijklmnop.onion/index.html''), DrainBatch]
          st1)) ''http://abcdefghijklmnop.onion''"
    by blast
  with f s l show ?thesis by blast
qed

section \<open>The structure of the data file\<close>













text \<open>An address found in a link has no line break.\<close>

lemma onion_match_here_no_line_break:
  "onion_match_here s = Some m \<Longrightarrow> CHR 0x0A \<notin> set m"
proof -
  assume m: "onion_match_here s = Some m"
  have w: "CHR 0x0A \<notin> set (takeWhile is_word_char r)" for r
  proof
    assume "CHR 0x0A \<in> set (takeWhile is_word_char r)"
    then have "is_word_char (CHR 0x0A)" by (rule set_takeWhileD [THEN conjunct2])
    then show False by (simp add: is_word_char_def is_alnum_ascii_def)
  qed
  show ?thesis
  proof (cases "take 8 s = ''https://''")
    case True
    with m have "\<exists>r. m = ''https://'' @ takeWhile is_word_char r @ ''.onion''"
      by (auto simp: onion_match_here_def Let_def split: if_splits)
    then show ?thesis using w by auto
  next
    case False
    show ?thesis
    proof (cases "take 7 s = ''http://''")
      case True
      with False m have "\<exists>r. m = ''http://'' @ takeWhile is_word_char r @ ''.onion''"
        by (auto simp: onion_match_here_def Let_def split: if_splits)
      then show ?thesis using w by auto
    next
      case h: False
      with False m show ?thesis by (simp add: onion_match_here_def)
    qed
  qed
qed

lemma onion_address_search_no_line_break:
  "onion_address_search h = Some a \<Longrightarrow> CHR 0x0A \<notin> set a"
proof -
  have "onion_search s = Some a \<Longrightarrow> CHR 0x0A \<notin> set a" for s
    by (induction s) (auto split: option.splits dest: onion_match_here_no_line_break)
  then show "onion_address_search h = Some a \<Longrightarrow> CHR 0x0A \<notin> set a"
    by (auto simp: onion_address_search_def split: option.splits if_splits)
qed


lemma records_ok_append [simp]:
  "records_ok A (xs @ ys) \<longleftrightarrow> records_ok A xs \<and> records_ok A ys"
  by (simp add: records_ok_def)

lemma written_append [simp]: "written (xs @ ys) = written xs @ written ys"
  by (simp add: written_def)










text \<open>A run that the search limit ends after one deprecated address.\<close>

lemma limited_run_file:
  "map_option (map_sum id data_file)
     (mt_crawl limited_config no_files
        (\<lambda>k. run_workers (\<lambda>n u. Raised ''Timeout'') (first_round k)) empty_crawler) =
   Some (Inr (''{'' @ [CHR 0x0A] @
        ''  '' @ [CHR 0x27] @ ''http://abcdefghijklmnop.onion'' @ [CHR 0x27] @ '': '' @
        [CHR 0x27] @ ''V2 address (deprecated)'' @ [CHR 0x27] @ '','' @ [CHR 0x0A] @
        ''}'' @ [CHR 0x0A]))"
proof -
  have v: "is_v2_address ''http://abcdefghijklmnop.onion''"
    by (simp add: is_v2_address_def endswith_def)
  show ?thesis
    apply (simp add: mt_crawl_def mt_setup_structs_def setup_structs_with_def limited_config_def
        truthy_def empty_crawler_def write_data_def no_files_def)
    apply (subst mt_crawl_loop.simps)
    apply (simp add: limit_reached_def one_enat_def drain_batch_def first_round_def run_workers_def
        mt_scrape_url_def scrape_url_with_def v log_iter_def write_log_def write_data_def Let_def
        record_line_def status_value_def sq_def nl_def)
    apply (subst mt_crawl_loop.simps)
    apply (simp add: limit_reached_def one_enat_def first_round_def run_workers_def
        mt_on_shutdown_def write_data_def Let_def nl_def)
    done
qed

end
